theory Spec2Isabelle
  imports Main "HOL-Library.AList" "HOL-Library.Sublist"
begin

section \<open>The JavaScript host\<close>

text \<open>
  The program is a Homey app written in JavaScript. What it takes from the runtime
  is collected in one record: the conversion of a string to a number, the parser
  of \<^verbatim>\<open>Date\<close>, the offset of the local time zone, the parser of \<^verbatim>\<open>URL\<close> and the
  query of a fetched HTML page for the renewal form. Numbers are integers
  (\<open>None\<close> stands for \<^verbatim>\<open>NaN\<close>), time values are milliseconds since the epoch.

  \<open>ToNumber s\<close> is \<^verbatim>\<open>Number(s)\<close>; \<open>Date_parse s\<close> is the time value of \<^verbatim>\<open>new Date(s)\<close>;
  \<open>LocalTZA t isUTC\<close> is the offset of local time from UTC in milliseconds, at the
  time value \<open>t\<close> read as UTC or as local time; \<open>URL_new s\<close> is \<^verbatim>\<open>new URL(s)\<close>, \<open>None\<close>
  when it throws; \<open>extend_form_inputs page\<close> is, when the page has an element of class
  \<^verbatim>\<open>my-library-extend-loan-form\<close>, the \<^verbatim>\<open>name\<close> and \<^verbatim>\<open>value\<close> attributes of its inputs.
\<close>

record url =
  url_hostname :: string
  url_searchParams :: "(string \<times> string) list"

record host =
  ToNumber :: "string \<Rightarrow> int option"
  Date_parse :: "string \<Rightarrow> int option"
  LocalTZA :: "int \<Rightarrow> bool \<Rightarrow> int"
  URL_new :: "string \<Rightarrow> url option"
  extend_form_inputs :: "string \<Rightarrow> (string option \<times> string option) list option"

text \<open>\<^verbatim>\<open>v || d\<close> for a value that is a string or absent: the empty string is falsy.\<close>

definition str_or :: "string option \<Rightarrow> string \<Rightarrow> string" where
  "str_or v d = (case v of None \<Rightarrow> d | Some s \<Rightarrow> if s = [] then d else s)"

definition truthy :: "string option \<Rightarrow> bool" where
  "truthy v = (case v of None \<Rightarrow> False | Some s \<Rightarrow> s \<noteq> [])"

text \<open>\<^verbatim>\<open>s.split(c)\<close> for a separator of one character.\<close>

fun split_on :: "char \<Rightarrow> string \<Rightarrow> string list" where
  "split_on c [] = [[]]"
| "split_on c (x # xs) =
     (if x = c then [] # split_on c xs
      else (case split_on c xs of [] \<Rightarrow> [[x]] | p # ps \<Rightarrow> (x # p) # ps))"

definition to_upper_ascii :: "char \<Rightarrow> char" where
  "to_upper_ascii c =
     (let n = (of_char c :: nat) in if 97 \<le> n \<and> n \<le> 122 then char_of (n - 32) else c)"

subsection \<open>Dates (ECMA-262, Date objects)\<close>

definition msPerDay :: int where
  "msPerDay = 86400000"

definition Day :: "int \<Rightarrow> int" where
  "Day t = t div msPerDay"

definition DayFromYear :: "int \<Rightarrow> int" where
  "DayFromYear y =
     365 * (y - 1970) + (y - 1969) div 4 - (y - 1901) div 100 + (y - 1601) div 400"

definition InLeapYear :: "int \<Rightarrow> bool" where
  "InLeapYear y = ((y mod 4 = 0 \<and> y mod 100 \<noteq> 0) \<or> y mod 400 = 0)"

text \<open>The number of days of a year that lie before its month \<open>mn\<close> (0 is January).\<close>

definition DaysBeforeMonth :: "bool \<Rightarrow> int \<Rightarrow> int" where
  "DaysBeforeMonth leap mn =
     (let l = (if leap then 1 else 0) in
      if mn = 0 then 0 else if mn = 1 then 31 else if mn = 2 then 59 + l
      else if mn = 3 then 90 + l else if mn = 4 then 120 + l else if mn = 5 then 151 + l
      else if mn = 6 then 181 + l else if mn = 7 then 212 + l else if mn = 8 then 243 + l
      else if mn = 9 then 273 + l else if mn = 10 then 304 + l else 334 + l)"

definition MakeDay :: "int \<Rightarrow> int \<Rightarrow> int \<Rightarrow> int" where
  "MakeDay year month date =
     (let ym = year + month div 12; mn = month mod 12
      in DayFromYear ym + DaysBeforeMonth (InLeapYear ym) mn + date - 1)"

definition MakeDate :: "int \<Rightarrow> int \<Rightarrow> int" where
  "MakeDate day time = day * msPerDay + time"

definition MakeFullYear :: "int \<Rightarrow> int" where
  "MakeFullYear y = (if 0 \<le> y \<and> y \<le> 99 then 1900 + y else y)"

definition TimeClip :: "int \<Rightarrow> int option" where
  "TimeClip t = (if \<bar>t\<bar> > 8640000000000000 then None else Some t)"

definition LocalTime :: "host \<Rightarrow> int \<Rightarrow> int" where
  "LocalTime h t = t + LocalTZA h t True"

definition UTC :: "host \<Rightarrow> int \<Rightarrow> int" where
  "UTC h t = t - LocalTZA h t False"

text \<open>\<^verbatim>\<open>new Date(year, month, day)\<close>: the time value of local midnight of that day.\<close>

definition Date_ymd :: "host \<Rightarrow> int \<Rightarrow> int \<Rightarrow> int \<Rightarrow> int option" where
  "Date_ymd h year month day =
     TimeClip (UTC h (MakeDate (MakeDay (MakeFullYear year) month day) 0))"

text \<open>
  \<^verbatim>\<open>d.setHours(0, 0, 0, 0)\<close> on a valid date: local midnight of the local day of \<open>t\<close>.
  The range limit of time values is applied where a date is constructed and not here
  (a date less than a day from the limit is outside the model).
\<close>

definition setHours0 :: "host \<Rightarrow> int \<Rightarrow> int" where
  "setHours0 h t = UTC h (MakeDate (Day (LocalTime h t)) 0)"

section \<open>The data of one refresh cycle\<close>

text \<open>
  An entry of the overview listing (\<^verbatim>\<open>data.loans\<close>); every field may be absent.
  \<open>ol_libraryName\<close> and \<open>ol_libraryUrl\<close> are the two fields of \<^verbatim>\<open>loan.location\<close>.
\<close>

record overview_loan =
  ol_title :: "string option"
  ol_author :: "string option"
  ol_accountName :: "string option"
  ol_dueDate :: "string option"
  ol_isRenewable :: "bool option"
  ol_libraryName :: "string option"
  ol_libraryUrl :: "string option"
  ol_extendLoanId :: "string option"

text \<open>
  An entry of \<^verbatim>\<open>user.loanDetails\<close> as \<^verbatim>\<open>getLoanDetails\<close> builds it; \<^verbatim>\<open>daysRemaining\<close>
  is optional because \<^verbatim>\<open>_processData\<close> tests it against \<^verbatim>\<open>undefined\<close>.
\<close>

record loan_detail =
  ld_title :: string
  ld_author :: string
  ld_daysRemaining :: "int option"
  ld_extendLoanId :: string
  ld_isExtendable :: bool

text \<open>
  An entry of \<^verbatim>\<open>data.userDetails\<close>: \<open>ud_userName\<close> is \<^verbatim>\<open>accountDetails?.userName\<close>,
  \<open>ud_reservations\<close> is \<^verbatim>\<open>reservations?.count\<close>, \<open>ud_loansUrl\<close> is \<^verbatim>\<open>loans?.url\<close>.
  Objects are lists of entries in the order of \<^verbatim>\<open>Object.entries\<close>.
\<close>

record user_details =
  ud_userName :: "string option"
  ud_reservations :: "int option"
  ud_loansUrl :: "string option"
  ud_loanDetails :: "(string \<times> loan_detail) list option"

record data =
  d_userDetails :: "(string \<times> user_details) list option"
  d_loans :: "overview_loan list option"

text \<open>A value of the map \<^verbatim>\<open>currentLoans\<close>; \<open>None\<close> is \<^verbatim>\<open>null\<close>.\<close>

record loan_info =
  li_title :: string
  li_author :: string
  li_daysLeft :: int
  li_libraryName :: string
  li_userName :: string
  li_isExtendable :: bool
  li_dueDate :: "string option"
  li_extendLoanId :: "string option"

text \<open>
  The calls of \<^verbatim>\<open>trigger\<close> on the three Flow cards, with their tokens:
  \<^verbatim>\<open>days_changed\<close> (days, loan_count), \<^verbatim>\<open>loan_expiring\<close> (book_title, days_left,
  library_name, user_name) and \<^verbatim>\<open>loan_expired\<close> (book_title, days_overdue, library_name).
\<close>

datatype event =
  DaysChanged "int option" nat
| LoanExpiring string int string string
| LoanExpired string int string

text \<open>
  What the code throws: the three errors of \<^verbatim>\<open>login\<close>, the error of \<^verbatim>\<open>extendLoans\<close>
  (with the status), a failed \<^verbatim>\<open>fetch\<close> (no response: network failure or timeout), the
  \<^verbatim>\<open>TypeError\<close> of \<^verbatim>\<open>new URL\<close>, and the errors of the fetches of \<^verbatim>\<open>refreshAllData\<close>.
\<close>

datatype error =
  NoOAuthLocation
| LoginFailed nat
| VerificationFailed
| ExtensionFormFailed nat
| FetchError
| InvalidURL
| FetchFailed string nat

text \<open>
  The device: its setting, its store, the two fields kept between cycles, the
  capability values and whether it is marked unavailable (with the message of
  which error).
  A JavaScript \<^verbatim>\<open>Map\<close> is a list of entries in insertion order with distinct keys.
\<close>

record device =
  warning_threshold :: "int option"
  lastData :: "data option"
  previousDaysRemaining :: "int option"
  previousLoans :: "(string \<times> loan_info) list"
  days_remaining :: "int option"
  loan_count :: nat
  reservation_count :: int
  loans_expiring_soon :: nat
  some_not_extendable :: bool
  unavailable :: "error option"

section \<open>drivers/library-account/device.js\<close>

text \<open>
  \<^verbatim>\<open>_calculateDaysRemaining\<close>; \<open>now\<close> is the time value that \<^verbatim>\<open>new Date()\<close> reads from
  the clock. A date string that is absent or empty gives 0, and so does a date that
  is invalid.
\<close>

definition calculateDaysRemaining :: "host \<Rightarrow> int \<Rightarrow> string option \<Rightarrow> int" where
  "calculateDaysRemaining h now dueDateStr =
     (case dueDateStr of
        None \<Rightarrow> 0
      | Some s \<Rightarrow>
          if s = [] then 0
          else
            let parts = split_on CHR ''/'' s;
                dueDate =
                  (if length parts = 3 then
                     (case (ToNumber h (parts ! 0), ToNumber h (parts ! 1), ToNumber h (parts ! 2)) of
                        (Some day, Some month, Some year) \<Rightarrow> Date_ymd h year (month - 1) day
                      | _ \<Rightarrow> None)
                   else Date_parse h s)
            in (case dueDate of
                  None \<Rightarrow> 0
                | Some due \<Rightarrow> (setHours0 h due - setHours0 h now) div msPerDay))"

definition extractLibraryFromUrl :: "host \<Rightarrow> string option \<Rightarrow> string option" where
  "extractLibraryFromUrl h u =
     (case u of
        None \<Rightarrow> None
      | Some s \<Rightarrow>
          if s = [] then None
          else (case URL_new h s of
                  None \<Rightarrow> None
                | Some parsed \<Rightarrow>
                    (case split_on CHR ''.'' (url_hostname parsed) of
                       [] \<Rightarrow> None
                     | [] # _ \<Rightarrow> Some []
                     | (c # cs) # _ \<Rightarrow> Some (to_upper_ascii c # cs))))"

text \<open>The variables of \<^verbatim>\<open>_processData\<close> that its two loops update.\<close>

record agg =
  minDaysRemaining :: "int option"
  totalLoans :: nat
  totalReservations :: int
  expiringSoon :: nat
  someNotExtendable :: bool
  currentLoans :: "(string \<times> loan_info) list"

text \<open>The body of the loop over the overview listing (lines 104 to 137).\<close>

definition overview_step :: "host \<Rightarrow> int \<Rightarrow> int \<Rightarrow> agg \<Rightarrow> overview_loan \<Rightarrow> agg" where
  "overview_step h now warningThreshold a loan =
     (let daysLeft = calculateDaysRemaining h now (ol_dueDate loan);
          loanKey = str_or (ol_title loan) [] @ ''|'' @ str_or (ol_accountName loan) []
      in a\<lparr>totalLoans := totalLoans a + 1,
            minDaysRemaining :=
              (case minDaysRemaining a of
                 None \<Rightarrow> Some daysLeft
               | Some m \<Rightarrow> if daysLeft < m then Some daysLeft else Some m),
            expiringSoon :=
              (if daysLeft \<le> warningThreshold then expiringSoon a + 1 else expiringSoon a),
            someNotExtendable := (someNotExtendable a \<or> ol_isRenewable loan = Some False),
            currentLoans :=
              AList.update loanKey
                \<lparr>li_title = str_or (ol_title loan) ''Unknown'',
                 li_author = str_or (ol_author loan) [],
                 li_daysLeft = daysLeft,
                 li_libraryName =
                   str_or (ol_libraryName loan)
                     (str_or (extractLibraryFromUrl h (ol_libraryUrl loan)) ''Unknown''),
                 li_userName = str_or (ol_accountName loan) ''Unknown'',
                 li_isExtendable = (ol_isRenewable loan \<noteq> Some False),
                 li_dueDate = ol_dueDate loan,
                 li_extendLoanId =
                   (if truthy (ol_extendLoanId loan) then ol_extendLoanId loan else None)\<rparr>
                (currentLoans a)\<rparr>)"

text \<open>
  The three assignments to \<^verbatim>\<open>existingLoan\<close> (lines 156 to 158).
\<close>

definition apply_detail :: "loan_detail \<Rightarrow> int \<Rightarrow> loan_info \<Rightarrow> loan_info" where
  "apply_detail loanDetail d existingLoan =
     existingLoan\<lparr>li_daysLeft := d,
                  li_extendLoanId := Some (ld_extendLoanId loanDetail),
                  li_isExtendable := ld_isExtendable loanDetail\<rparr>"

definition detailKey :: "user_details \<Rightarrow> loan_detail \<Rightarrow> string" where
  "detailKey user loanDetail = ld_title loanDetail @ ''|'' @ str_or (ud_userName user) []"

text \<open>
  The body of the loop over one user's detailed loans (lines 146 to 166). In the
  comparison with the minimum, \<^verbatim>\<open>null\<close> counts as 0, as \<^verbatim>\<open><\<close> converts it.
\<close>

definition detail_step :: "user_details \<Rightarrow> agg \<Rightarrow> string \<times> loan_detail \<Rightarrow> agg" where
  "detail_step user a entry =
     (let loanDetail = snd entry;
          a1 = (if \<not> ld_isExtendable loanDetail then a\<lparr>someNotExtendable := True\<rparr> else a)
      in (case ld_daysRemaining loanDetail of
            None \<Rightarrow> a1
          | Some d \<Rightarrow>
              (case map_of (currentLoans a1) (detailKey user loanDetail) of
                 None \<Rightarrow> a1
               | Some existingLoan \<Rightarrow>
                   a1\<lparr>currentLoans :=
                        AList.map_entry (detailKey user loanDetail) (apply_detail loanDetail d)
                          (currentLoans a1),
                      minDaysRemaining :=
                        (if (case minDaysRemaining a1 of None \<Rightarrow> d < 0 | Some m \<Rightarrow> d < m)
                         then Some d else minDaysRemaining a1)\<rparr>)))"

text \<open>The body of the loop over the users (lines 140 to 168).\<close>

definition user_step :: "agg \<Rightarrow> string \<times> user_details \<Rightarrow> agg" where
  "user_step a entry =
     (let user = snd entry;
          reservationCount = (case ud_reservations user of None \<Rightarrow> 0 | Some c \<Rightarrow> c);
          a1 = a\<lparr>totalReservations := totalReservations a + reservationCount\<rparr>
      in (case ud_loanDetails user of
            None \<Rightarrow> a1
          | Some details \<Rightarrow> foldl (detail_step user) a1 details))"

text \<open>
  \<^verbatim>\<open>_checkAndTriggerFlows\<close>: the triggers of one entry of \<^verbatim>\<open>currentLoans\<close>
  (lines 213 to 246), then the whole function.
\<close>

definition loan_triggers :: "(string \<times> loan_info) list \<Rightarrow> int \<Rightarrow> string \<times> loan_info \<Rightarrow> event list" where
  "loan_triggers prev warningThreshold entry =
     (let loan = snd entry;
          previousLoan = map_of prev (fst entry)
      in (if (case previousLoan of
                None \<Rightarrow> True
              | Some p \<Rightarrow> li_daysLeft p > warningThreshold \<and> li_daysLeft loan \<le> warningThreshold)
             \<and> li_daysLeft loan \<le> warningThreshold \<and> li_daysLeft loan \<ge> 0
          then [LoanExpiring (li_title loan) (li_daysLeft loan) (li_libraryName loan) (li_userName loan)]
          else [])
         @
         (if (case previousLoan of
                None \<Rightarrow> li_daysLeft loan < 0
              | Some p \<Rightarrow> li_daysLeft p \<ge> 0 \<and> li_daysLeft loan < 0)
          then [LoanExpired (li_title loan) \<bar>li_daysLeft loan\<bar> (li_libraryName loan)]
          else []))"

definition checkAndTriggerFlows ::
  "device \<Rightarrow> (string \<times> loan_info) list \<Rightarrow> int option \<Rightarrow> nat \<Rightarrow> int \<Rightarrow> event list" where
  "checkAndTriggerFlows dev curLoans minDays loanCount warningThreshold =
     (if previousDaysRemaining dev \<noteq> None \<and> previousDaysRemaining dev \<noteq> minDays
      then [DaysChanged minDays loanCount] else [])
     @ concat (map (loan_triggers (previousLoans dev) warningThreshold) curLoans)"

text \<open>\<^verbatim>\<open>this.getSetting('warning_threshold') || 7\<close>.\<close>

definition warningThreshold :: "device \<Rightarrow> int" where
  "warningThreshold dev =
     (case warning_threshold dev of None \<Rightarrow> 7 | Some t \<Rightarrow> if t = 0 then 7 else t)"

text \<open>\<^verbatim>\<open>loans || []\<close> and \<^verbatim>\<open>Object.entries(userDetails || {})\<close>.\<close>

definition loans_of :: "data \<Rightarrow> overview_loan list" where
  "loans_of dat = (case d_loans dat of None \<Rightarrow> [] | Some ls \<Rightarrow> ls)"

definition users_of :: "data \<Rightarrow> (string \<times> user_details) list" where
  "users_of dat = (case d_userDetails dat of None \<Rightarrow> [] | Some us \<Rightarrow> us)"

text \<open>
  The first part of \<^verbatim>\<open>_processData\<close> (lines 93 to 176): the two loops, then the
  recount of the loans that expire soon.
\<close>

definition aggregate :: "host \<Rightarrow> int \<Rightarrow> int \<Rightarrow> data \<Rightarrow> agg" where
  "aggregate h now T dat =
     (let a0 = \<lparr>minDaysRemaining = None, totalLoans = 0, totalReservations = 0,
                expiringSoon = 0, someNotExtendable = False, currentLoans = []\<rparr>;
          a1 = foldl (overview_step h now T) a0 (loans_of dat);
          a2 = foldl user_step a1 (users_of dat)
      in a2\<lparr>expiringSoon :=
               length (filter (\<lambda>e. li_daysLeft (snd e) \<le> T) (currentLoans a2))\<rparr>)"

text \<open>
  \<^verbatim>\<open>_processData\<close>. The calls of the platform (\<^verbatim>\<open>setCapabilityValue\<close>, the store,
  \<^verbatim>\<open>setAvailable\<close>) are updates of the device record. One clock reading \<open>now\<close>
  serves the whole call.
\<close>

definition processData :: "host \<Rightarrow> int \<Rightarrow> device \<Rightarrow> data \<Rightarrow> bool \<Rightarrow> device \<times> event list" where
  "processData h now dev dat triggerFlows =
     (let a = aggregate h now (warningThreshold dev) dat;
          dev1 = dev\<lparr>days_remaining := minDaysRemaining a,
                     loan_count := totalLoans a,
                     reservation_count := totalReservations a,
                     loans_expiring_soon := expiringSoon a,
                     some_not_extendable := someNotExtendable a\<rparr>;
          events =
            (if triggerFlows
             then checkAndTriggerFlows dev1 (currentLoans a) (minDaysRemaining a) (totalLoans a)
                    (warningThreshold dev)
             else [])
      in (dev1\<lparr>previousDaysRemaining := minDaysRemaining a,
                previousLoans := currentLoans a\<rparr>, events))"

text \<open>
  \<^verbatim>\<open>refreshData\<close>; \<open>fetched\<close> is the outcome of \<^verbatim>\<open>api.refreshAllData\<close>, an error when
  it throws. The result is the device, the events triggered and the value returned.
\<close>

definition refreshData ::
  "host \<Rightarrow> int \<Rightarrow> error + data \<Rightarrow> device \<Rightarrow> device \<times> event list \<times> bool" where
  "refreshData h now fetched dev =
     (case fetched of
        Inl err \<Rightarrow> (dev\<lparr>unavailable := Some err\<rparr>, [], False)
      | Inr dat \<Rightarrow>
          (let dev1 = dev\<lparr>lastData := Some dat\<rparr>;
               (dev2, events) = processData h now dev1 dat True
           in (dev2\<lparr>unavailable := None\<rparr>, events, True)))"

text \<open>
  \<^verbatim>\<open>onInit\<close> up to the set-up of polling: the stored data, if any, is processed
  without triggering. The initial refresh that follows is a call of \<open>refreshData\<close>.
\<close>

definition onInit :: "host \<Rightarrow> int \<Rightarrow> device \<Rightarrow> device" where
  "onInit h now dev =
     (let dev0 = dev\<lparr>previousDaysRemaining := None, previousLoans := []\<rparr>
      in (case lastData dev0 of
            None \<Rightarrow> dev0
          | Some storedData \<Rightarrow> fst (processData h now dev0 storedData False)))"

section \<open>lib/BibliotheekAPI.js\<close>

text \<open>
  A request is what \<^verbatim>\<open>fetch\<close> is called with (headers left out), a response what the
  code reads of the answer. The network answers a request depending on the requests
  made before it (the cookies and the state of the server), or not at all.
\<close>

datatype redirect = Manual | Follow

record request =
  rq_method :: string
  rq_url :: string
  rq_body :: "(string \<times> string) list"
  rq_redirect :: redirect

record response =
  rs_status :: nat
  rs_location :: "string option"
  rs_body :: string

type_synonym net = "request list \<Rightarrow> request \<Rightarrow> response option"

definition rs_ok :: "response \<Rightarrow> bool" where
  "rs_ok r = (200 \<le> rs_status r \<and> rs_status r \<le> 299)"

definition GET :: "string \<Rightarrow> redirect \<Rightarrow> request" where
  "GET u r = \<lparr>rq_method = ''GET'', rq_url = u, rq_body = [], rq_redirect = r\<rparr>"

definition POST :: "string \<Rightarrow> (string \<times> string) list \<Rightarrow> redirect \<Rightarrow> request" where
  "POST u b r = \<lparr>rq_method = ''POST'', rq_url = u, rq_body = b, rq_redirect = r\<rparr>"

text \<open>The form fields posted to the login endpoint (lines 133 to 139).\<close>

definition loginData :: "url \<Rightarrow> string \<Rightarrow> string \<Rightarrow> (string \<times> string) list" where
  "loginData oauthUrl username password =
     (let oauthToken = map_of (url_searchParams oauthUrl) ''oauth_token'';
          hint = map_of (url_searchParams oauthUrl) ''hint''
      in [(''hint'', str_or hint ''login''),
          (''token'', str_or oauthToken []),
          (''callback'', ''https://bibliotheek.be/my-library/login/callback''),
          (''email'', username),
          (''password'', password)])"

text \<open>Step 5 of \<^verbatim>\<open>login\<close>: the memberships page must answer 200.\<close>

definition login_verify :: "net \<Rightarrow> request list \<Rightarrow> (error + bool) \<times> request list" where
  "login_verify nw tr =
     (let rq = GET ''https://bibliotheek.be/mijn-bibliotheek/lidmaatschappen'' Manual
      in (case nw tr rq of
            None \<Rightarrow> (Inl FetchError, tr @ [rq])
          | Some verifyResponse \<Rightarrow>
              if rs_status verifyResponse \<noteq> 200 then (Inl VerificationFailed, tr @ [rq])
              else (Inr True, tr @ [rq])))"

text \<open>Step 4 of \<^verbatim>\<open>login\<close>: the redirect of the login response is followed.\<close>

definition login_callback ::
  "net \<Rightarrow> request list \<Rightarrow> (string \<times> string) list \<Rightarrow> response \<Rightarrow> (error + bool) \<times> request list" where
  "login_callback nw tr form loginResponse =
     (if rs_status loginResponse = 303 \<and> truthy (rs_location loginResponse) then
        (let rq = GET (str_or (rs_location loginResponse) []) Manual
         in (case nw tr rq of
               None \<Rightarrow> (Inl FetchError, tr @ [rq])
             | Some callbackResponse \<Rightarrow>
                 if rs_status callbackResponse = 302 then
                   (let rq' = POST ''https://mijn.bibliotheek.be/openbibid/rest/accessToken'' form Follow
                    in (case nw (tr @ [rq]) rq' of
                          None \<Rightarrow> (Inl FetchError, tr @ [rq, rq'])
                        | Some _ \<Rightarrow> login_verify nw (tr @ [rq, rq'])))
                 else login_verify nw (tr @ [rq])))
      else login_verify nw tr)"

text \<open>
  \<^verbatim>\<open>login\<close>, from a history \<open>tr\<close> of requests: the value returned or the error thrown,
  and the history extended by the requests made.
\<close>

definition login ::
  "host \<Rightarrow> net \<Rightarrow> request list \<Rightarrow> string \<Rightarrow> string \<Rightarrow> (error + bool) \<times> request list" where
  "login h nw tr username password =
     (let rq1 = GET ''https://bibliotheek.be/mijn-bibliotheek/aanmelden'' Manual
      in (case nw tr rq1 of
            None \<Rightarrow> (Inl FetchError, tr @ [rq1])
          | Some authStartResponse \<Rightarrow>
              if rs_status authStartResponse \<noteq> 302 then (Inr True, tr @ [rq1])
              else if \<not> truthy (rs_location authStartResponse) then (Inl NoOAuthLocation, tr @ [rq1])
              else
                (let oauthLocation = str_or (rs_location authStartResponse) []
                 in (case URL_new h oauthLocation of
                       None \<Rightarrow> (Inl InvalidURL, tr @ [rq1])
                     | Some oauthUrl \<Rightarrow>
                         (let rq2 = GET oauthLocation Follow
                          in (case nw (tr @ [rq1]) rq2 of
                                None \<Rightarrow> (Inl FetchError, tr @ [rq1, rq2])
                              | Some _ \<Rightarrow>
                                  (let form = loginData oauthUrl username password;
                                       rq3 = POST ''https://mijn.bibliotheek.be/openbibid/rest/auth/login''
                                               form Manual
                                   in (case nw (tr @ [rq1, rq2]) rq3 of
                                         None \<Rightarrow> (Inl FetchError, tr @ [rq1, rq2, rq3])
                                       | Some loginResponse \<Rightarrow>
                                           if rs_status loginResponse \<noteq> 200
                                              \<and> rs_status loginResponse \<noteq> 303
                                           then (Inl (LoginFailed (rs_status loginResponse)),
                                                 tr @ [rq1, rq2, rq3])
                                           else login_callback nw (tr @ [rq1, rq2, rq3]) form
                                                  loginResponse))))))))"

text \<open>\<^verbatim>\<open>ids.join(sep)\<close>.\<close>

fun join :: "string \<Rightarrow> string list \<Rightarrow> string" where
  "join sep [] = []"
| "join sep [x] = x"
| "join sep (x # y # ys) = x @ sep @ join sep (y # ys)"

text \<open>
  The fields of the form that are posted back: every input with a name, an absent
  value as the empty string (lines 609 to 616).
\<close>

definition formData :: "(string option \<times> string option) list \<Rightarrow> (string \<times> string) list" where
  "formData inputs =
     map (\<lambda>i. (str_or (fst i) [], str_or (snd i) [])) (filter (\<lambda>i. truthy (fst i)) inputs)"

definition extendLoans ::
  "host \<Rightarrow> net \<Rightarrow> request list \<Rightarrow> string \<Rightarrow> string list \<Rightarrow> (error + nat) \<times> request list" where
  "extendLoans h nw tr baseUrl extendLoanIds =
     (if extendLoanIds = [] then (Inr 0, tr)
      else
        (let extendUrl = baseUrl @ ''/extend?loan-ids='' @ join ''%2C'' extendLoanIds;
             rq1 = GET extendUrl Manual
         in (case nw tr rq1 of
               None \<Rightarrow> (Inl FetchError, tr @ [rq1])
             | Some resp \<Rightarrow>
                 if \<not> rs_ok resp \<and> rs_status resp \<noteq> 200
                 then (Inl (ExtensionFormFailed (rs_status resp)), tr @ [rq1])
                 else
                   (case extend_form_inputs h (rs_body resp) of
                      None \<Rightarrow> (Inr 0, tr @ [rq1])
                    | Some inputs \<Rightarrow>
                        (let rq2 = POST extendUrl (formData inputs) Follow
                         in (case nw (tr @ [rq1]) rq2 of
                               None \<Rightarrow> (Inl FetchError, tr @ [rq1, rq2])
                             | Some _ \<Rightarrow> (Inr (length extendLoanIds), tr @ [rq1, rq2])))))))"

text \<open>
  \<^verbatim>\<open>refreshAllData\<close>: the login, then the fetches that follow it (the memberships, the
  overview of loans and of reservations, the activities and the details of every
  account, the lists). These are given as \<open>rest\<close>: from the history of requests
  they return the data of the cycle or the error thrown by a mandatory fetch.
\<close>

definition refreshAllData ::
  "host \<Rightarrow> net \<Rightarrow> (request list \<Rightarrow> error + data) \<Rightarrow> string \<Rightarrow> string \<Rightarrow> error + data" where
  "refreshAllData h nw rest username password =
     (case login h nw [] username password of
        (Inl err, tr) \<Rightarrow> Inl err
      | (Inr ok, tr) \<Rightarrow> rest tr)"

text \<open>
  The address of the loans of an account, as \<^verbatim>\<open>refreshAllData\<close> stores it in the user
  details of the account under the key \<^verbatim>\<open>account.id\<close> (lines 691 to 695).
\<close>

definition loans_url :: "string \<Rightarrow> string" where
  "loans_url account_id = ''https://bibliotheek.be/my-library/memberships/'' @ account_id @ ''/loans''"

section \<open>Extending loans (device.js, \<^verbatim>\<open>extendAllLoans\<close>)\<close>

text \<open>\<^verbatim>\<open>url.replace(/\/loans$/, '')\<close>: a final \<^verbatim>\<open>/loans\<close> is removed.\<close>

definition strip_loans :: "string \<Rightarrow> string" where
  "strip_loans u =
     (if 6 \<le> length u \<and> drop (length u - 6) u = ''/loans'' then take (length u - 6) u else u)"

text \<open>The inner loop (lines 366 to 372): the identifiers pushed to \<^verbatim>\<open>loansToExtend\<close>.\<close>

definition push_eligible :: "int \<Rightarrow> string list \<Rightarrow> string \<times> loan_detail \<Rightarrow> string list" where
  "push_eligible maxDays acc entry =
     (let loan = snd entry
      in if ld_isExtendable loan \<and> ld_extendLoanId loan \<noteq> []
            \<and> (case ld_daysRemaining loan of None \<Rightarrow> False | Some d \<Rightarrow> d \<le> maxDays)
         then acc @ [ld_extendLoanId loan] else acc)"

definition loansToExtend :: "int \<Rightarrow> (string \<times> loan_detail) list \<Rightarrow> string list" where
  "loansToExtend maxDays details = foldl (push_eligible maxDays) [] details"

definition baseUrl_of :: "user_details \<Rightarrow> string" where
  "baseUrl_of user = (case ud_loansUrl user of None \<Rightarrow> [] | Some u \<Rightarrow> strip_loans u)"

text \<open>
  The loop over the accounts (lines 360 to 380), with the total so far and the
  history of requests; an error of \<open>extendLoans\<close> leaves the loop.
\<close>

fun extend_accounts ::
  "host \<Rightarrow> net \<Rightarrow> int \<Rightarrow> (string \<times> user_details) list \<Rightarrow> nat \<Rightarrow> request list
     \<Rightarrow> (error + nat) \<times> request list" where
  "extend_accounts h nw maxDays [] totalExtended tr = (Inr totalExtended, tr)"
| "extend_accounts h nw maxDays (entry # rest) totalExtended tr =
     (case ud_loanDetails (snd entry) of
        None \<Rightarrow> extend_accounts h nw maxDays rest totalExtended tr
      | Some details \<Rightarrow>
          if loansToExtend maxDays details \<noteq> [] \<and> baseUrl_of (snd entry) \<noteq> [] then
            (case extendLoans h nw tr (baseUrl_of (snd entry)) (loansToExtend maxDays details) of
               (Inl err, tr') \<Rightarrow> (Inl err, tr')
             | (Inr count, tr') \<Rightarrow> extend_accounts h nw maxDays rest (totalExtended + count) tr')
          else extend_accounts h nw maxDays rest totalExtended tr)"

text \<open>
  \<^verbatim>\<open>extendAllLoans\<close>: the device, the events of the refresh that follows a successful
  extension, the value returned, and the requests made for the extension.
\<close>

definition extendAllLoans ::
  "host \<Rightarrow> net \<Rightarrow> int \<Rightarrow> error + data \<Rightarrow> device \<Rightarrow> int
     \<Rightarrow> (device \<times> event list \<times> bool) \<times> request list" where
  "extendAllLoans h nw now fetched dev maxDays =
     (case lastData dev of
        None \<Rightarrow> ((dev, [], False), [])
      | Some dat \<Rightarrow>
          (case d_userDetails dat of
             None \<Rightarrow> ((dev, [], False), [])
           | Some users \<Rightarrow>
               (case extend_accounts h nw maxDays users 0 [] of
                  (Inl err, tr) \<Rightarrow> ((dev, [], False), tr)
                | (Inr totalExtended, tr) \<Rightarrow>
                    if totalExtended > 0
                    then (let (dev', events, r) = refreshData h now fetched dev
                          in ((dev', events, True), tr))
                    else ((dev, [], False), tr))))"

section \<open>Refreshes in flight\<close>

text \<open>
  \<^verbatim>\<open>refreshData\<close> is an \<^verbatim>\<open>async\<close> function: it runs up to an \<^verbatim>\<open>await\<close>, and the platform
  runs other callbacks until the awaited call has finished. A call in flight is at one
  of the \<^verbatim>\<open>await\<close>s of the function: of \<^verbatim>\<open>api.refreshAllData\<close> (line 64), of
  \<^verbatim>\<open>setStoreValue\<close> (line 67) and \<^verbatim>\<open>_processData\<close> (line 70) with the data fetched, of
  \<^verbatim>\<open>setAvailable\<close> (line 73), or of \<^verbatim>\<open>setUnavailable\<close> (line 79) with the error caught.
  As in \<open>refreshData\<close>, only \<^verbatim>\<open>api.refreshAllData\<close> may throw.
\<close>

datatype await_point =
  AwaitFetch
| AwaitStore data
| AwaitProcess data
| AwaitAvailable
| AwaitUnavailable error

definition finish :: "nat \<Rightarrow> await_point list \<Rightarrow> await_point list" where
  "finish i ts = take i ts @ drop (Suc i) ts"

text \<open>
  One step of the device with its calls in flight: \<^verbatim>\<open>refreshData\<close> is called (by the
  timer of \<^verbatim>\<open>_setupPolling\<close>, by \<^verbatim>\<open>onInit\<close>, by \<^verbatim>\<open>extendAllLoans\<close>, by a Flow action) and
  runs to its first \<^verbatim>\<open>await\<close>, or a call in flight goes on from its \<^verbatim>\<open>await\<close> to the
  next. Neither the function nor its callers test whether a call is in flight, so
  the rule \<open>call\<close> has no premise.
\<close>

inductive refresh_step :: "host \<Rightarrow> int \<Rightarrow> device \<times> await_point list \<Rightarrow> device \<times> await_point list \<Rightarrow> bool"
  for h :: host and now :: int where
  call: "refresh_step h now (dev, ts) (dev, ts @ [AwaitFetch])"
| fetched:
    "i < length ts \<Longrightarrow> ts ! i = AwaitFetch \<Longrightarrow>
     refresh_step h now (dev, ts) (dev, ts[i := AwaitStore dat])"
| thrown:
    "i < length ts \<Longrightarrow> ts ! i = AwaitFetch \<Longrightarrow>
     refresh_step h now (dev, ts) (dev, ts[i := AwaitUnavailable err])"
| stored:
    "i < length ts \<Longrightarrow> ts ! i = AwaitStore dat \<Longrightarrow>
     refresh_step h now (dev, ts) (dev\<lparr>lastData := Some dat\<rparr>, ts[i := AwaitProcess dat])"
| processed:
    "i < length ts \<Longrightarrow> ts ! i = AwaitProcess dat \<Longrightarrow>
     refresh_step h now (dev, ts) (fst (processData h now dev dat True), ts[i := AwaitAvailable])"
| returned_true:
    "i < length ts \<Longrightarrow> ts ! i = AwaitAvailable \<Longrightarrow>
     refresh_step h now (dev, ts) (dev\<lparr>unavailable := None\<rparr>, finish i ts)"
| returned_false:
    "i < length ts \<Longrightarrow> ts ! i = AwaitUnavailable err \<Longrightarrow>
     refresh_step h now (dev, ts) (dev\<lparr>unavailable := Some err\<rparr>, finish i ts)"

text \<open>What a device that starts as \<open>dev0\<close> with no call in flight can come to.\<close>

definition reachable :: "host \<Rightarrow> int \<Rightarrow> device \<Rightarrow> device \<times> await_point list \<Rightarrow> bool" where
  "reachable h now dev0 s = (refresh_step h now)\<^sup>*\<^sup>* (dev0, []) s"

section \<open>The properties to verify\<close>

text \<open>The \<^verbatim>\<open>loan_expiring\<close> trigger of one loan, and the test for such an event.\<close>

definition expiring_event :: "loan_info \<Rightarrow> event" where
  "expiring_event loan =
     LoanExpiring (li_title loan) (li_daysLeft loan) (li_libraryName loan) (li_userName loan)"

definition is_LoanExpiring :: "event \<Rightarrow> bool" where
  "is_LoanExpiring e = (case e of LoanExpiring _ _ _ _ \<Rightarrow> True | _ \<Rightarrow> False)"

text \<open>
  The condition of the specification for \<open>LoanExpiringSoon\<close>: the days left lie in
  \<open>[0, T]\<close>, and the loan is not in the previous map or was above \<open>T\<close> there.
\<close>

definition enters_window :: "(string \<times> loan_info) list \<Rightarrow> int \<Rightarrow> string \<times> loan_info \<Rightarrow> bool" where
  "enters_window prev T entry =
     (0 \<le> li_daysLeft (snd entry) \<and> li_daysLeft (snd entry) \<le> T
      \<and> (case map_of prev (fst entry) of None \<Rightarrow> True | Some p \<Rightarrow> T < li_daysLeft p))"

text \<open>The other two triggers, and the test for a \<^verbatim>\<open>days_changed\<close> event.\<close>

definition overdue_event :: "loan_info \<Rightarrow> event" where
  "overdue_event loan = LoanExpired (li_title loan) \<bar>li_daysLeft loan\<bar> (li_libraryName loan)"

definition is_DaysChanged :: "event \<Rightarrow> bool" where
  "is_DaysChanged e = (case e of DaysChanged _ _ \<Rightarrow> True | _ \<Rightarrow> False)"

text \<open>
  What a loan triggers when nothing precedes it: \<^verbatim>\<open>loan_expiring\<close> inside the
  window, \<^verbatim>\<open>loan_expired\<close> when it is overdue.
\<close>

definition first_sight :: "int \<Rightarrow> string \<times> loan_info \<Rightarrow> event list" where
  "first_sight T entry =
     (if 0 \<le> li_daysLeft (snd entry) \<and> li_daysLeft (snd entry) \<le> T
      then [expiring_event (snd entry)] else [])
     @ (if li_daysLeft (snd entry) < 0 then [overdue_event (snd entry)] else [])"

text \<open>
  The coarse records: the map of current loans after the loop over the overview
  listing, before any detail is merged.
\<close>

definition coarse_loans :: "host \<Rightarrow> int \<Rightarrow> int \<Rightarrow> data \<Rightarrow> (string \<times> loan_info) list" where
  "coarse_loans h now T dat =
     currentLoans
       (foldl (overview_step h now T)
          \<lparr>minDaysRemaining = None, totalLoans = 0, totalReservations = 0,
           expiringSoon = 0, someNotExtendable = False, currentLoans = []\<rparr>
          (loans_of dat))"

text \<open>
  The detailed records of the identity \<open>k\<close>, in the order in which the loops meet
  them: those of one user, and those of all users. A record without
  \<^verbatim>\<open>daysRemaining\<close> is not merged and is left out.
\<close>

definition matching :: "user_details \<Rightarrow> string \<Rightarrow> (string \<times> loan_detail) list \<Rightarrow> loan_detail list" where
  "matching u k details =
     map snd (filter (\<lambda>e. detailKey u (snd e) = k \<and> ld_daysRemaining (snd e) \<noteq> None) details)"

definition details_for :: "string \<Rightarrow> (string \<times> user_details) list \<Rightarrow> loan_detail list" where
  "details_for k users =
     concat (map (\<lambda>entry. case ud_loanDetails (snd entry) of
                             None \<Rightarrow> []
                           | Some details \<Rightarrow> matching (snd entry) k details) users)"

text \<open>A coarse record with the detailed records of its identity merged into it.\<close>

definition merged :: "loan_info \<Rightarrow> loan_detail list \<Rightarrow> loan_info" where
  "merged c ds =
     (case ds of
        [] \<Rightarrow> c
      | _ \<Rightarrow> (case ld_daysRemaining (last ds) of
                None \<Rightarrow> c
              | Some n \<Rightarrow> apply_detail (last ds) n c))"

text \<open>
  The loans eligible for extension as the specification has them: renewable, with a
  renewal identifier, and with at most \<open>maxDays\<close> days remaining; their identifiers
  for one account; and the batches, one for each account that has an eligible loan
  and a base address.
\<close>

definition eligible :: "int \<Rightarrow> loan_detail \<Rightarrow> bool" where
  "eligible maxDays loan =
     (ld_isExtendable loan \<and> ld_extendLoanId loan \<noteq> []
      \<and> (case ld_daysRemaining loan of None \<Rightarrow> False | Some d \<Rightarrow> d \<le> maxDays))"

definition eligible_ids :: "int \<Rightarrow> user_details \<Rightarrow> string list" where
  "eligible_ids maxDays user =
     (case ud_loanDetails user of
        None \<Rightarrow> []
      | Some details \<Rightarrow> map ld_extendLoanId (filter (eligible maxDays) (map snd details)))"

definition batches :: "int \<Rightarrow> (string \<times> user_details) list \<Rightarrow> (string \<times> string list) list" where
  "batches maxDays users =
     map (\<lambda>e. (baseUrl_of (snd e), eligible_ids maxDays (snd e)))
       (filter (\<lambda>e. eligible_ids maxDays (snd e) \<noteq> [] \<and> baseUrl_of (snd e) \<noteq> []) users)"

text \<open>
  The request that opens a batch: every call of \<^verbatim>\<open>extendLoans\<close> with identifiers
  starts with this \<^verbatim>\<open>GET\<close>, and makes no other.
\<close>

definition extend_request :: "string \<times> string list \<Rightarrow> request" where
  "extend_request b = GET (fst b @ ''/extend?loan-ids='' @ join ''%2C'' (snd b)) Manual"

definition is_GET :: "request \<Rightarrow> bool" where
  "is_GET rq = (rq_method rq = ''GET'')"

text \<open>
  A batch extension request, after the requests \<open>tr\<close> made so far: the renewal form
  of the batch is requested; when the page is returned with a status from 200 to
  299 and holds the form, the fields of the form are posted to the same address.
  The request fails when the form is not answered, when it is answered with another
  status, or when the posting is not answered.
\<close>

definition confirm_request ::
  "string \<times> string list \<Rightarrow> (string option \<times> string option) list \<Rightarrow> request" where
  "confirm_request b inputs =
     POST (fst b @ ''/extend?loan-ids='' @ join ''%2C'' (snd b)) (formData inputs) Follow"

definition batch_requests ::
  "host \<Rightarrow> net \<Rightarrow> request list \<Rightarrow> string \<times> string list \<Rightarrow> request list" where
  "batch_requests h nw tr b =
     (case nw tr (extend_request b) of
        None \<Rightarrow> [extend_request b]
      | Some page \<Rightarrow>
          if rs_ok page then
            (case extend_form_inputs h (rs_body page) of
               None \<Rightarrow> [extend_request b]
             | Some inputs \<Rightarrow> [extend_request b, confirm_request b inputs])
          else [extend_request b])"

definition batch_fails :: "host \<Rightarrow> net \<Rightarrow> request list \<Rightarrow> string \<times> string list \<Rightarrow> bool" where
  "batch_fails h nw tr b =
     (case nw tr (extend_request b) of
        None \<Rightarrow> True
      | Some page \<Rightarrow>
          if rs_ok page then
            (case extend_form_inputs h (rs_body page) of
               None \<Rightarrow> False
             | Some inputs \<Rightarrow>
                 (case nw (tr @ [extend_request b]) (confirm_request b inputs) of
                    None \<Rightarrow> True
                  | Some answer \<Rightarrow> False))
          else True)"

text \<open>
  The batches submitted one after the other, up to the first whose request fails:
  whether none has failed, and the requests made.
\<close>

fun submit_batches ::
  "host \<Rightarrow> net \<Rightarrow> request list \<Rightarrow> (string \<times> string list) list \<Rightarrow> bool \<times> request list" where
  "submit_batches h nw tr [] = (True, tr)"
| "submit_batches h nw tr (b # bs) =
     (if batch_fails h nw tr b then (False, tr @ batch_requests h nw tr b)
      else submit_batches h nw (tr @ batch_requests h nw tr b) bs)"

text \<open>
  The user details as a refresh stores them: every account has the address of its
  loans, built from the key of the account.
\<close>

definition stored_by_refresh :: "(string \<times> user_details) list \<Rightarrow> bool" where
  "stored_by_refresh users =
     list_all (\<lambda>e. ud_loansUrl (snd e) = Some (loans_url (fst e))) users"

section \<open>Inputs of the examples\<close>

text \<open>
  A string of decimal digits as a number; the empty string is 0, as \<^verbatim>\<open>Number('')\<close> is.
\<close>

definition digit_value :: "char \<Rightarrow> int option" where
  "digit_value c =
     (let n = (of_char c :: nat) in if 48 \<le> n \<and> n \<le> 57 then Some (int n - 48) else None)"

fun decimal_from :: "int \<Rightarrow> string \<Rightarrow> int option" where
  "decimal_from acc [] = Some acc"
| "decimal_from acc (c # cs) =
     (case digit_value c of None \<Rightarrow> None | Some d \<Rightarrow> decimal_from (10 * acc + d) cs)"

definition decimal :: "string \<Rightarrow> int option" where
  "decimal s = decimal_from 0 s"

text \<open>
  The offset of Europe/Brussels in 2025: one hour, and two hours between
  30 March 01:00 UTC and 26 October 01:00 UTC. A local time is read with the offset
  before the transition where it is skipped or repeated.
\<close>

definition brussels_tza :: "int \<Rightarrow> bool \<Rightarrow> int" where
  "brussels_tza t isUTC =
     (let t0 = 1743296400000; t1 = 1761440400000; hour = 3600000
      in if isUTC then (if t0 \<le> t \<and> t < t1 then 2 * hour else hour)
         else (if t0 + 2 * hour \<le> t \<and> t < t1 + 2 * hour then 2 * hour else hour))"

text \<open>
  A URL \<^verbatim>\<open>https://host/path?k=v&k=v\<close> without escapes or fragment: its host name and
  its query parameters.
\<close>

definition simple_URL :: "string \<Rightarrow> url option" where
  "simple_URL u =
     (if take 8 u = ''https://'' \<and> 8 < length u then
        Some \<lparr>url_hostname =
                takeWhile (\<lambda>c. c \<noteq> CHR ''/'' \<and> c \<noteq> CHR ''?'') (drop 8 u),
              url_searchParams =
                map (\<lambda>kv. (takeWhile (\<lambda>c. c \<noteq> CHR ''='') kv,
                           drop 1 (dropWhile (\<lambda>c. c \<noteq> CHR ''='') kv)))
                  (filter (\<lambda>kv. kv \<noteq> [])
                     (split_on CHR ''&'' (drop 1 (dropWhile (\<lambda>c. c \<noteq> CHR ''?'') u))))\<rparr>
      else None)"

text \<open>
  The host of the examples. They use no ISO date, and the only page with a renewal
  form is the page \<^verbatim>\<open>FORM\<close>, whose form has one named input.
\<close>

definition brussels :: host where
  "brussels =
     \<lparr>ToNumber = decimal,
      Date_parse = (\<lambda>s. None),
      LocalTZA = brussels_tza,
      URL_new = simple_URL,
      extend_form_inputs =
        (\<lambda>body. if body = ''FORM'' then Some [(Some ''form_id'', Some ''extend''), (None, Some ''x'')]
                 else None)\<rparr>"

text \<open>A device as \<^verbatim>\<open>onInit\<close> finds it after pairing: threshold 7, nothing stored.\<close>

definition device0 :: device where
  "device0 =
     \<lparr>warning_threshold = Some 7, lastData = None, previousDaysRemaining = None,
      previousLoans = [], days_remaining = None, loan_count = 0, reservation_count = 0,
      loans_expiring_soon = 0, some_not_extendable = False, unavailable = None\<rparr>"

text \<open>An entry of \<^verbatim>\<open>currentLoans\<close> with the given days left.\<close>

definition loan_at :: "int \<Rightarrow> loan_info" where
  "loan_at d =
     \<lparr>li_title = ''Dune'', li_author = ''Herbert'', li_daysLeft = d, li_libraryName = ''Gent'',
      li_userName = ''An'', li_isExtendable = True, li_dueDate = None, li_extendLoanId = None\<rparr>"

text \<open>
  An entry of the overview listing due on the given date, and the cycle data with
  this one loan and no user details.
\<close>

definition overview_due :: "string \<Rightarrow> overview_loan" where
  "overview_due due =
     \<lparr>ol_title = Some ''Dune'', ol_author = Some ''Herbert'', ol_accountName = Some ''An'',
      ol_dueDate = Some due, ol_isRenewable = Some True, ol_libraryName = Some ''Gent'',
      ol_libraryUrl = None, ol_extendLoanId = None\<rparr>"

definition data_due :: "string \<Rightarrow> data" where
  "data_due due = \<lparr>d_userDetails = Some [], d_loans = Some [overview_due due]\<rparr>"

text \<open>Friday 28 March 2025, 12:00 in Brussels (11:00 UTC).\<close>

definition noon_28_march :: int where
  "noon_28_march = 1743159600000"

text \<open>
  A detailed record as \<^verbatim>\<open>getLoanDetails\<close> builds it, from its title, its extend id
  and its days remaining; the account of An with its detailed loans; and the data of
  a cycle in which the overview lists the loan as due on 30 March while the detail
  page says three days.
\<close>

definition detail :: "string \<Rightarrow> string \<Rightarrow> int \<Rightarrow> loan_detail" where
  "detail t i n =
     \<lparr>ld_title = t, ld_author = [], ld_daysRemaining = Some n,
      ld_extendLoanId = i, ld_isExtendable = (i \<noteq> [])\<rparr>"

definition user_An :: "(string \<times> loan_detail) list \<Rightarrow> user_details" where
  "user_An details =
     \<lparr>ud_userName = Some ''An'', ud_reservations = Some 0,
      ud_loansUrl = Some ''https://bibliotheek.be/my-library/memberships/1/loans'',
      ud_loanDetails = Some details\<rparr>"

definition data_merge :: data where
  "data_merge =
     \<lparr>d_userDetails = Some [(''1'', user_An [(''Dunex1'', detail ''Dune'' ''x1'' 3)])],
      d_loans = Some [overview_due ''30/03/2025'']\<rparr>"

text \<open>A cycle without loans.\<close>

definition no_loans :: data where
  "no_loans = \<lparr>d_userDetails = Some [], d_loans = Some []\<rparr>"

text \<open>
  A network that answers the start page of the login with a redirect (302) whose
  \<^verbatim>\<open>Location\<close> header is as given, and every other request with an empty page (200).
\<close>

definition redirecting_net :: "string option \<Rightarrow> net" where
  "redirecting_net loc tr rq =
     (if rq_url rq = ''https://bibliotheek.be/mijn-bibliotheek/aanmelden''
      then Some \<lparr>rs_status = 302, rs_location = loc, rs_body = []\<rparr>
      else Some \<lparr>rs_status = 200, rs_location = None, rs_body = []\<rparr>)"

text \<open>
  Accounts as a refresh stores them. An has the three loans of the example of the
  specification: A renewable with three days, B not renewable, C renewable with nine
  days. Bo has one renewable loan with four days, Em has no detailed loans, and Cy
  has one renewable loan that is due today.
\<close>

definition account_An :: user_details where
  "account_An =
     user_An [(''Ax1'', detail ''A'' ''x1'' 3), (''B'', detail ''B'' [] 2),
              (''Cx3'', detail ''C'' ''x3'' 9)]"

definition account_Bo :: user_details where
  "account_Bo =
     \<lparr>ud_userName = Some ''Bo'', ud_reservations = Some 0,
      ud_loansUrl = Some ''https://bibliotheek.be/my-library/memberships/2/loans'',
      ud_loanDetails = Some [(''Dy1'', detail ''D'' ''y1'' 4)]\<rparr>"

definition data_two :: data where
  "data_two = \<lparr>d_userDetails = Some [(''1'', account_An), (''2'', account_Bo)], d_loans = Some []\<rparr>"

definition account_Em :: user_details where
  "account_Em =
     \<lparr>ud_userName = Some ''Em'', ud_reservations = Some 0,
      ud_loansUrl = Some ''https://bibliotheek.be/my-library/memberships/3/loans'',
      ud_loanDetails = None\<rparr>"

definition account_Cy :: user_details where
  "account_Cy =
     \<lparr>ud_userName = Some ''Cy'', ud_reservations = Some 0,
      ud_loansUrl = Some ''https://bibliotheek.be/my-library/memberships/4/loans'',
      ud_loanDetails = Some [(''Ez1'', detail ''E'' ''z1'' 0)]\<rparr>"

definition data_four :: data where
  "data_four =
     \<lparr>d_userDetails =
        Some [(''1'', account_An), (''2'', account_Bo), (''3'', account_Em), (''4'', account_Cy)],
      d_loans = Some []\<rparr>"

text \<open>
  A network that answers every request with a redirect to the login (the session
  has expired), one that answers every request with the page \<^verbatim>\<open>FORM\<close>, and one that
  answers the first \<open>n\<close> requests with that page and is down from then on.
\<close>

definition expired_net :: net where
  "expired_net tr rq =
     Some \<lparr>rs_status = 302,
           rs_location = Some ''https://bibliotheek.be/mijn-bibliotheek/aanmelden'',
           rs_body = []\<rparr>"

definition form_net :: net where
  "form_net tr rq = Some \<lparr>rs_status = 200, rs_location = None, rs_body = ''FORM''\<rparr>"

definition dropping_net :: "nat \<Rightarrow> net" where
  "dropping_net n tr rq =
     (if length tr < n then Some \<lparr>rs_status = 200, rs_location = None, rs_body = ''FORM''\<rparr>
      else None)"

section \<open>Verification\<close>

subsection \<open>The map of current loans\<close>

lemma distinct_overview_step:
  "distinct (map fst (currentLoans a)) \<Longrightarrow>
   distinct (map fst (currentLoans (overview_step h now T a loan)))"
  by (simp add: overview_step_def Let_def AList.distinct_update)

lemma distinct_overview:
  "distinct (map fst (currentLoans a)) \<Longrightarrow>
   distinct (map fst (currentLoans (foldl (overview_step h now T) a ls)))"
  by (induction ls arbitrary: a) (simp_all add: distinct_overview_step)

lemma distinct_detail_step:
  "distinct (map fst (currentLoans a)) \<Longrightarrow>
   distinct (map fst (currentLoans (detail_step user a e)))"
  by (simp add: detail_step_def Let_def AList.distinct_map_entry split: option.splits)

lemma distinct_details:
  "distinct (map fst (currentLoans a)) \<Longrightarrow>
   distinct (map fst (currentLoans (foldl (detail_step user) a ds)))"
  by (induction ds arbitrary: a) (simp_all add: distinct_detail_step)

lemma distinct_user_step:
  "distinct (map fst (currentLoans a)) \<Longrightarrow> distinct (map fst (currentLoans (user_step a e)))"
  by (simp add: user_step_def Let_def distinct_details split: option.splits)

lemma distinct_users:
  "distinct (map fst (currentLoans a)) \<Longrightarrow>
   distinct (map fst (currentLoans (foldl user_step a us)))"
  by (induction us arbitrary: a) (simp_all add: distinct_user_step)

lemma distinct_aggregate: "distinct (map fst (currentLoans (aggregate h now T dat)))"
  by (simp add: aggregate_def Let_def distinct_users distinct_overview)

lemma processData_previousLoans:
  "previousLoans (fst (processData h now dev dat tf)) =
     currentLoans (aggregate h now (warningThreshold dev) dat)"
  by (simp add: processData_def Let_def)

lemma processData_previousDaysRemaining:
  "previousDaysRemaining (fst (processData h now dev dat tf)) =
     minDaysRemaining (aggregate h now (warningThreshold dev) dat)"
  by (simp add: processData_def Let_def)

lemma processData_warningThreshold:
  "warningThreshold (fst (processData h now dev dat tf)) = warningThreshold dev"
  by (simp add: processData_def Let_def warningThreshold_def)

lemma processData_events:
  "snd (processData h now dev dat True) =
     checkAndTriggerFlows dev (currentLoans (aggregate h now (warningThreshold dev) dat))
       (minDaysRemaining (aggregate h now (warningThreshold dev) dat))
       (totalLoans (aggregate h now (warningThreshold dev) dat)) (warningThreshold dev)"
  by (simp add: processData_def Let_def checkAndTriggerFlows_def)

lemma processData_silent: "snd (processData h now dev dat False) = []"
  by (simp add: processData_def Let_def)

subsection \<open>Loans that expire soon\<close>

lemma filter_expiring_loan_triggers:
  "filter is_LoanExpiring (loan_triggers prev T e) =
     (if enters_window prev T e then [expiring_event (snd e)] else [])"
  by (auto simp: loan_triggers_def enters_window_def is_LoanExpiring_def expiring_event_def
      Let_def split: option.splits)

lemma filter_expiring_concat:
  "filter is_LoanExpiring (concat (map (loan_triggers prev T) cur)) =
     map (expiring_event \<circ> snd) (filter (enters_window prev T) cur)"
  by (induction cur) (simp_all add: filter_expiring_loan_triggers)

lemma filter_expiring_checkAndTriggerFlows:
  "filter is_LoanExpiring (checkAndTriggerFlows dev cur m n T) =
     map (expiring_event \<circ> snd) (filter (enters_window (previousLoans dev) T) cur)"
  by (simp add: checkAndTriggerFlows_def filter_expiring_concat is_LoanExpiring_def)

lemma no_reentry:
  assumes "distinct (map fst cur)"
  shows "filter (enters_window cur T) cur = []"
proof -
  have "\<not> enters_window cur T e" if "e \<in> set cur" for e
  proof -
    from that assms have "map_of cur (fst e) = Some (snd e)"
      by (intro map_of_is_SomeI) simp_all
    then show ?thesis by (simp add: enters_window_def)
  qed
  then show ?thesis by (simp add: filter_empty_conv)
qed

text \<open>
  Claim C3. For every previous state, every map of current loans and every threshold
  \<open>T\<close>, the \<^verbatim>\<open>loan_expiring\<close> triggers of \<^verbatim>\<open>_checkAndTriggerFlows\<close> are, in the order
  of the map, those of the loans whose days left lie in \<open>[0, T]\<close> and that are absent
  from the previous map or had more than \<open>T\<close> days left there. Consequently
  processing the same data a second time, right after the first, triggers none.
\<close>

theorem expiring_soon_iff_entering:
  "filter is_LoanExpiring (checkAndTriggerFlows dev cur m n T) =
     map (expiring_event \<circ> snd) (filter (enters_window (previousLoans dev) T) cur)
   \<and> filter is_LoanExpiring
       (snd (processData h now (fst (processData h now dev' dat tf)) dat True)) = []"
  by (simp add: filter_expiring_checkAndTriggerFlows processData_events
      processData_previousLoans processData_warningThreshold no_reentry distinct_aggregate)

theorem expiring_soon_iff_entering_witness:
  "filter is_LoanExpiring
     (checkAndTriggerFlows (device0\<lparr>previousLoans := [(''Dune|An'', loan_at 10)]\<rparr>)
        [(''Dune|An'', loan_at 7)] (Some 7) 1 7) = [LoanExpiring ''Dune'' 7 ''Gent'' ''An'']
   \<and> filter is_LoanExpiring
       (checkAndTriggerFlows (device0\<lparr>previousLoans := [(''Dune|An'', loan_at 7)]\<rparr>)
          [(''Dune|An'', loan_at 7)] (Some 7) 1 7) = []
   \<and> filter is_LoanExpiring
       (snd (processData brussels noon_28_march
               (fst (processData brussels noon_28_march device0 (data_due ''31/03/2025'') True))
               (data_due ''31/03/2025'') True)) = []"
  using expiring_soon_iff_entering
    [of "device0\<lparr>previousLoans := [(''Dune|An'', loan_at 10)]\<rparr>" "[(''Dune|An'', loan_at 7)]"
       "Some 7" 1 7 brussels noon_28_march device0 "data_due ''31/03/2025''" True]
    expiring_soon_iff_entering
    [of "device0\<lparr>previousLoans := [(''Dune|An'', loan_at 7)]\<rparr>" "[(''Dune|An'', loan_at 7)]"
       "Some 7" 1 7 brussels noon_28_march device0 "data_due ''31/03/2025''" True]
  by (simp add: enters_window_def expiring_event_def loan_at_def)

subsection \<open>The first cycle\<close>

lemma first_sight_events:
  "previousDaysRemaining dev = None \<Longrightarrow> previousLoans dev = [] \<Longrightarrow>
   checkAndTriggerFlows dev cur m n T = concat (map (first_sight T) cur)"
  by (induction cur)
    (auto simp: checkAndTriggerFlows_def loan_triggers_def first_sight_def expiring_event_def
      overdue_event_def Let_def)

lemma onInit_nothing_stored:
  "onInit h now (dev\<lparr>lastData := None\<rparr>) =
     dev\<lparr>lastData := None, previousDaysRemaining := None, previousLoans := []\<rparr>"
  by (simp add: onInit_def)

lemma refreshData_events:
  "fst (snd (refreshData h now (Inr dat) dev)) =
     snd (processData h now (dev\<lparr>lastData := Some dat\<rparr>) dat True)"
  by (simp add: refreshData_def split: prod.splits)

text \<open>
  Against claim C2: a device starts with nothing stored, and its first refresh finds
  one loan due in two days, inside the window of seven. The \<^verbatim>\<open>loan_expiring\<close>
  trigger fires.
\<close>

theorem first_cycle_expiring_counterexample:
  "fst (snd (refreshData brussels noon_28_march (Inr (data_due ''30/03/2025''))
               (onInit brussels noon_28_march device0))) =
     [LoanExpiring ''Dune'' 2 ''Gent'' ''An'']"
  by code_simp

text \<open>
  Claim C2, amended. The first refresh of a device that starts with nothing stored
  triggers, for each loan in the order of the map, \<^verbatim>\<open>loan_expiring\<close> when its days
  left lie in \<open>[0, T]\<close> and \<^verbatim>\<open>loan_expired\<close> when they are negative, and nothing
  else: no \<^verbatim>\<open>days_changed\<close>. The same holds of \<^verbatim>\<open>_checkAndTriggerFlows\<close> whenever the
  previous minimum is \<^verbatim>\<open>null\<close> and the previous map is empty. Stored data loaded at
  start-up is processed without triggering and yields no event.
\<close>

theorem first_cycle_events:
  "fst (snd (refreshData h now (Inr dat) (onInit h now (dev\<lparr>lastData := None\<rparr>)))) =
     concat (map (first_sight (warningThreshold dev))
       (currentLoans (aggregate h now (warningThreshold dev) dat)))
   \<and> checkAndTriggerFlows (dev'\<lparr>previousDaysRemaining := None, previousLoans := []\<rparr>) cur m n T =
       concat (map (first_sight T) cur)
   \<and> snd (processData h' now' dev'' dat' False) = []"
  by (simp add: refreshData_events onInit_nothing_stored processData_events first_sight_events
      processData_silent warningThreshold_def)

theorem first_cycle_events_witness:
  "fst (snd (refreshData brussels noon_28_march (Inr (data_due ''30/03/2025''))
               (onInit brussels noon_28_march (device0\<lparr>lastData := None\<rparr>)))) =
     [LoanExpiring ''Dune'' 2 ''Gent'' ''An'']
   \<and> checkAndTriggerFlows (device0\<lparr>previousDaysRemaining := None, previousLoans := []\<rparr>)
        [(''a'', loan_at 3), (''b'', loan_at (- 2)), (''c'', loan_at 9)] (Some (- 2)) 3 7 =
       [LoanExpiring ''Dune'' 3 ''Gent'' ''An'', LoanExpired ''Dune'' 2 ''Gent'']
   \<and> snd (processData brussels noon_28_march device0 (data_due ''30/03/2025'') False) = []"
proof -
  have agg: "currentLoans (aggregate brussels noon_28_march 7 (data_due ''30/03/2025'')) =
      [(''Dune|An'', (loan_at 2)\<lparr>li_dueDate := Some ''30/03/2025''\<rparr>)]"
    by code_simp
  have T: "warningThreshold device0 = 7"
    by (simp add: warningThreshold_def device0_def)
  show ?thesis
    using first_cycle_events[of brussels noon_28_march "data_due ''30/03/2025''" device0
        device0 "[(''a'', loan_at 3), (''b'', loan_at (- 2)), (''c'', loan_at 9)]" "Some (- 2)" 3 7
        brussels noon_28_march device0 "data_due ''30/03/2025''"]
    by (simp add: agg T first_sight_def expiring_event_def overdue_event_def loan_at_def)
qed

subsection \<open>The minimum of the days remaining\<close>

lemma filter_DaysChanged_loan_triggers:
  "filter is_DaysChanged (concat (map (loan_triggers prev T) cur)) = []"
  by (induction cur) (auto simp: loan_triggers_def is_DaysChanged_def Let_def)

lemma min_overview_step: "minDaysRemaining (overview_step h now T a l) \<noteq> None"
  by (simp add: overview_step_def Let_def split: option.splits)

lemma min_overview:
  "ls \<noteq> [] \<Longrightarrow> minDaysRemaining (foldl (overview_step h now T) a ls) \<noteq> None"
  by (induction ls arbitrary: a rule: rev_induct)
    (simp_all add: min_overview_step del: not_None_eq)

lemma min_detail_step:
  "minDaysRemaining a \<noteq> None \<Longrightarrow> minDaysRemaining (detail_step u a e) \<noteq> None"
  by (auto simp: detail_step_def Let_def split: option.splits)

lemma min_details:
  "minDaysRemaining a \<noteq> None \<Longrightarrow> minDaysRemaining (foldl (detail_step u) a es) \<noteq> None"
  by (induction es arbitrary: a) (simp_all add: min_detail_step del: not_None_eq)

lemma min_user_step:
  "minDaysRemaining a \<noteq> None \<Longrightarrow> minDaysRemaining (user_step a e) \<noteq> None"
  by (simp add: user_step_def Let_def min_details split: option.splits del: not_None_eq)

lemma min_users:
  "minDaysRemaining a \<noteq> None \<Longrightarrow> minDaysRemaining (foldl user_step a es) \<noteq> None"
  by (induction es arbitrary: a) (simp_all add: min_user_step del: not_None_eq)

lemma empty_detail_step:
  "currentLoans a = [] \<Longrightarrow> minDaysRemaining a = None \<Longrightarrow>
   currentLoans (detail_step u a e) = [] \<and> minDaysRemaining (detail_step u a e) = None"
  by (simp add: detail_step_def Let_def split: option.splits)

lemma empty_details:
  "currentLoans a = [] \<Longrightarrow> minDaysRemaining a = None \<Longrightarrow>
   currentLoans (foldl (detail_step u) a es) = []
   \<and> minDaysRemaining (foldl (detail_step u) a es) = None"
  by (induction es arbitrary: a) (simp_all add: empty_detail_step)

lemma empty_user_step:
  "currentLoans a = [] \<Longrightarrow> minDaysRemaining a = None \<Longrightarrow>
   currentLoans (user_step a e) = [] \<and> minDaysRemaining (user_step a e) = None"
  by (simp add: user_step_def Let_def empty_details split: option.splits)

lemma empty_users:
  "currentLoans a = [] \<Longrightarrow> minDaysRemaining a = None \<Longrightarrow>
   currentLoans (foldl user_step a es) = [] \<and> minDaysRemaining (foldl user_step a es) = None"
  by (induction es arbitrary: a) (simp_all add: empty_user_step)

lemma min_None_iff_no_loans:
  "(minDaysRemaining (aggregate h now T dat) = None) = (loans_of dat = [])"
proof (cases "loans_of dat = []")
  case True
  then show ?thesis by (simp add: aggregate_def Let_def empty_users)
next
  case False
  then show ?thesis
    by (simp add: aggregate_def Let_def min_users min_overview del: not_None_eq)
qed

text \<open>
  Against claim C4: a cycle without loans is followed by a cycle with one loan. The
  minimum goes from \<^verbatim>\<open>null\<close> to 2, and no \<^verbatim>\<open>days_changed\<close> is triggered.
\<close>

theorem days_changed_counterexample:
  "days_remaining (fst (refreshData brussels noon_28_march (Inr no_loans)
                          (onInit brussels noon_28_march device0))) = None
   \<and> days_remaining (fst (refreshData brussels noon_28_march (Inr (data_due ''30/03/2025''))
        (fst (refreshData brussels noon_28_march (Inr no_loans)
                (onInit brussels noon_28_march device0))))) = Some 2
   \<and> filter is_DaysChanged (fst (snd (refreshData brussels noon_28_march (Inr (data_due ''30/03/2025''))
        (fst (refreshData brussels noon_28_march (Inr no_loans)
                (onInit brussels noon_28_march device0)))))) = []"
  by code_simp

text \<open>
  Claim C4, amended. \<^verbatim>\<open>days_changed\<close> is triggered, once and with the current
  minimum and loan count, if and only if the previous minimum is not \<^verbatim>\<open>null\<close> and
  differs from the current one; and the minimum of a cycle is \<^verbatim>\<open>null\<close> exactly when
  its overview lists no loan. So the trigger fires when the last loan goes, and does
  not fire when the first loan comes, nor in the first cycle.
\<close>

theorem days_changed_iff:
  "filter is_DaysChanged (checkAndTriggerFlows dev cur m n T) =
     (if previousDaysRemaining dev \<noteq> None \<and> previousDaysRemaining dev \<noteq> m
      then [DaysChanged m n] else [])
   \<and> (minDaysRemaining (aggregate h now T' dat) = None) = (loans_of dat = [])"
  by (simp add: checkAndTriggerFlows_def filter_DaysChanged_loan_triggers is_DaysChanged_def
      min_None_iff_no_loans)

theorem days_changed_iff_witness:
  "filter is_DaysChanged
     (checkAndTriggerFlows (device0\<lparr>previousDaysRemaining := Some 5\<rparr>) [] None 0 7) =
     [DaysChanged None 0]
   \<and> filter is_DaysChanged
       (checkAndTriggerFlows (device0\<lparr>previousDaysRemaining := None\<rparr>)
          [(''Dune|An'', loan_at 5)] (Some 5) 1 7) = []
   \<and> filter is_DaysChanged
       (checkAndTriggerFlows (device0\<lparr>previousDaysRemaining := Some 5\<rparr>)
          [(''Dune|An'', loan_at 5)] (Some 5) 1 7) = []
   \<and> minDaysRemaining (aggregate brussels noon_28_march 7 no_loans) = None"
  using days_changed_iff[of "device0\<lparr>previousDaysRemaining := Some 5\<rparr>" "[]" None 0 7
      brussels noon_28_march 7 no_loans]
    days_changed_iff[of "device0\<lparr>previousDaysRemaining := None\<rparr>" "[(''Dune|An'', loan_at 5)]"
      "Some 5" 1 7 brussels noon_28_march 7 no_loans]
    days_changed_iff[of "device0\<lparr>previousDaysRemaining := Some 5\<rparr>" "[(''Dune|An'', loan_at 5)]"
      "Some 5" 1 7 brussels noon_28_march 7 no_loans]
  by (simp add: loans_of_def no_loans_def)

text \<open>
  Claim C1 fails on the code. At noon on 28 March the overview lists one loan due on
  30 March, two days ahead, and the detail page of its account gives it three days.
  The merge sets the days left of the loan to 3, but the minimum is only ever
  lowered by a detailed record (line 161), so \<^verbatim>\<open>days_remaining\<close> is published as 2
  while the only loan of the snapshot has 3 days left.
\<close>

theorem days_remaining_not_minimum:
  "days_remaining (fst (processData brussels noon_28_march device0 data_merge True)) = Some 2
   \<and> map (\<lambda>e. li_daysLeft (snd e))
       (previousLoans (fst (processData brussels noon_28_march device0 data_merge True))) = [3]"
  by code_simp

subsection \<open>Merging the detailed records\<close>

lemma apply_detail_twice: "apply_detail d2 n2 (apply_detail d1 n1 c) = apply_detail d2 n2 c"
  by (simp add: apply_detail_def)

lemma map_of_detail_step:
  "map_of (currentLoans (detail_step u a e)) k =
     (case ld_daysRemaining (snd e) of
        None \<Rightarrow> map_of (currentLoans a) k
      | Some n \<Rightarrow>
          if k = detailKey u (snd e)
          then map_option (apply_detail (snd e) n) (map_of (currentLoans a) k)
          else map_of (currentLoans a) k)"
  by (auto simp: detail_step_def Let_def AList.map_of_map_entry split: option.splits)

lemma merged_snoc:
  "merged c (ds @ [d]) =
     (case ld_daysRemaining d of None \<Rightarrow> c | Some n \<Rightarrow> apply_detail d n c)"
  by (cases ds) (simp_all add: merged_def split: option.splits)

lemma merged_append:
  "(\<forall>d \<in> set ds2. ld_daysRemaining d \<noteq> None) \<Longrightarrow>
   merged (merged c ds1) ds2 = merged c (ds1 @ ds2)"
  apply (cases ds2 rule: rev_cases)
   apply (simp add: merged_def)
  apply (cases ds1 rule: rev_cases)
   apply (simp add: merged_def)
  apply (simp only: append_assoc[symmetric] merged_snoc)
  apply (auto simp: apply_detail_twice split: option.splits)
  done

lemma matching_has_days: "\<forall>d \<in> set (matching u k ds). ld_daysRemaining d \<noteq> None"
  by (auto simp: matching_def)

lemma details_for_has_days: "\<forall>d \<in> set (details_for k us). ld_daysRemaining d \<noteq> None"
  by (auto simp: details_for_def matching_def split: option.splits)

lemma map_of_details:
  "map_of (currentLoans (foldl (detail_step u) a details)) k =
     map_option (\<lambda>c. merged c (matching u k details)) (map_of (currentLoans a) k)"
proof (induction details arbitrary: a)
  case Nil
  show ?case by (simp add: matching_def merged_def option.map_ident)
next
  case (Cons e es)
  have m: "matching u k (e # es) = matching u k [e] @ matching u k es"
    by (simp add: matching_def)
  have one: "map_of (currentLoans (detail_step u a e)) k =
      map_option (\<lambda>c. merged c (matching u k [e])) (map_of (currentLoans a) k)"
    by (cases "map_of (currentLoans a) k")
      (auto simp: map_of_detail_step matching_def merged_def split: option.splits)
  show ?case
    by (simp add: Cons.IH one m option.map_comp comp_def merged_append[OF matching_has_days])
qed

lemma map_of_user_step:
  "map_of (currentLoans (user_step a e)) k =
     map_option (\<lambda>c. merged c (details_for k [e])) (map_of (currentLoans a) k)"
  by (simp add: user_step_def Let_def details_for_def map_of_details merged_def
      option.map_ident split: option.splits)

lemma details_for_Cons: "details_for k (e # es) = details_for k [e] @ details_for k es"
  by (simp add: details_for_def)

lemma map_of_users:
  "map_of (currentLoans (foldl user_step a users)) k =
     map_option (\<lambda>c. merged c (details_for k users)) (map_of (currentLoans a) k)"
proof (induction users arbitrary: a)
  case Nil
  show ?case by (simp add: details_for_def merged_def option.map_ident)
next
  case (Cons e es)
  show ?case
    by (simp add: Cons.IH map_of_user_step option.map_comp comp_def
        details_for_Cons[of k e es] merged_append[OF details_for_has_days])
qed

lemma map_of_aggregate:
  "map_of (currentLoans (aggregate h now T dat)) k =
     map_option (\<lambda>c. merged c (details_for k (users_of dat))) (map_of (coarse_loans h now T dat) k)"
  by (simp add: aggregate_def Let_def map_of_users coarse_loans_def)

text \<open>
  Claim C5. For every identity \<open>k\<close> that has a coarse record \<open>c\<close> in the overview and
  at least one detailed record, the merged record of \<open>k\<close> has the days remaining, the
  extend id and the extendable flag of the detailed record (the last one, should
  several share the identity), and is the coarse record \<open>c\<close> in every other field.
\<close>

theorem detail_over_coarse:
  assumes "map_of (coarse_loans h now T dat) k = Some c"
    and "details_for k (users_of dat) = ds"
    and "ds \<noteq> []"
  shows "\<exists>n. ld_daysRemaining (last ds) = Some n
           \<and> map_of (currentLoans (aggregate h now T dat)) k =
               Some (c\<lparr>li_daysLeft := n,
                       li_extendLoanId := Some (ld_extendLoanId (last ds)),
                       li_isExtendable := ld_isExtendable (last ds)\<rparr>)"
proof -
  from assms(2,3) details_for_has_days[of k "users_of dat"]
  obtain n where n: "ld_daysRemaining (last ds) = Some n"
    by (metis last_in_set not_None_eq)
  with assms show ?thesis
    by (cases ds) (simp_all add: map_of_aggregate merged_def apply_detail_def)
qed

theorem detail_over_coarse_witness:
  "map_of (coarse_loans brussels noon_28_march 7 data_merge) ''Dune|An'' =
     Some ((loan_at 2)\<lparr>li_dueDate := Some ''30/03/2025''\<rparr>)
   \<and> details_for ''Dune|An'' (users_of data_merge) = [detail ''Dune'' ''x1'' 3]
   \<and> map_of (currentLoans (aggregate brussels noon_28_march 7 data_merge)) ''Dune|An'' =
       Some ((loan_at 3)\<lparr>li_dueDate := Some ''30/03/2025'', li_extendLoanId := Some ''x1''\<rparr>)"
proof -
  have c: "map_of (coarse_loans brussels noon_28_march 7 data_merge) ''Dune|An'' =
     Some ((loan_at 2)\<lparr>li_dueDate := Some ''30/03/2025''\<rparr>)"
    by code_simp
  have d: "details_for ''Dune|An'' (users_of data_merge) = [detail ''Dune'' ''x1'' 3]"
    by code_simp
  from detail_over_coarse[OF c d] c d show ?thesis
    by (simp add: detail_def loan_at_def)
qed

subsection \<open>Days remaining\<close>

text \<open>
  Where the offset of the local zone is constant, the days remaining of a date
  \<^verbatim>\<open>DD/MM/YYYY\<close> are the difference of the day numbers of the due day and of the local
  day of the clock, whatever the time of day. An absent or empty date gives 0.
\<close>

lemma calculateDaysRemaining_constant_offset:
  assumes tz: "\<And>t u. LocalTZA h t u = off"
    and parts: "split_on CHR ''/'' s = [ds, ms, ys]"
    and nums: "ToNumber h ds = Some d" "ToNumber h ms = Some m" "ToNumber h ys = Some y"
    and range: "\<bar>MakeDay (MakeFullYear y) (m - 1) d * msPerDay - off\<bar> \<le> 8640000000000000"
  shows "calculateDaysRemaining h now (Some s) = MakeDay (MakeFullYear y) (m - 1) d - Day (now + off)"
proof -
  define A where "A = MakeDay (MakeFullYear y) (m - 1) d"
  define B where "B = Day (now + off)"
  have ne: "s \<noteq> []" using parts by auto
  have due: "Date_ymd h y (m - 1) d = Some (A * msPerDay - off)"
    using range by (simp add: Date_ymd_def TimeClip_def UTC_def MakeDate_def tz A_def)
  have mid: "setHours0 h t = Day (t + off) * msPerDay - off" for t
    by (simp add: setHours0_def UTC_def MakeDate_def LocalTime_def tz)
  have r: "calculateDaysRemaining h now (Some s) =
      (setHours0 h (A * msPerDay - off) - setHours0 h now) div msPerDay"
    using ne by (simp add: calculateDaysRemaining_def parts nums due Let_def)
  have d: "setHours0 h (A * msPerDay - off) = A * msPerDay - off"
    by (simp add: mid Day_def msPerDay_def)
  have e: "A * msPerDay - off - (B * msPerDay - off) = (A - B) * msPerDay"
    by (simp add: left_diff_distrib)
  have "(A * msPerDay - off - (B * msPerDay - off)) div msPerDay = A - B"
    unfolding e by (simp add: msPerDay_def)
  then have "calculateDaysRemaining h now (Some s) = A - B"
    unfolding r d mid[of now] B_def .
  then show ?thesis
    unfolding A_def B_def .
qed

lemma calculateDaysRemaining_no_date:
  "calculateDaysRemaining h now None = 0" "calculateDaysRemaining h now (Some []) = 0"
  by (simp_all add: calculateDaysRemaining_def)

lemma setHours0_constant:
  assumes "\<And>t isUTC. LocalTZA h t isUTC = off"
  shows "setHours0 h t = Day (t + off) * msPerDay - off"
  by (simp add: setHours0_def UTC_def MakeDate_def LocalTime_def assms)

lemma midnights_apart: "(A * msPerDay - off - (B * msPerDay - off)) div msPerDay = A - B"
proof -
  have "A * msPerDay - off - (B * msPerDay - off) = (A - B) * msPerDay"
    by (simp add: left_diff_distrib)
  then show ?thesis by (simp add: msPerDay_def)
qed

text \<open>
  The same holds of a date in another form that \<^verbatim>\<open>Date\<close> parses: the result is the
  difference of the local day numbers. A date that it does not parse gives 0.
\<close>

lemma calculateDaysRemaining_parsed:
  assumes tz: "\<And>t isUTC. LocalTZA h t isUTC = off"
    and s: "s \<noteq> []" "length (split_on CHR ''/'' s) \<noteq> 3" "Date_parse h s = Some t"
  shows "calculateDaysRemaining h now (Some s) = Day (t + off) - Day (now + off)"
proof -
  have "calculateDaysRemaining h now (Some s) = (setHours0 h t - setHours0 h now) div msPerDay"
    using s by (simp add: calculateDaysRemaining_def Let_def)
  then show ?thesis
    by (simp only: setHours0_constant[OF tz] midnights_apart)
qed

lemma calculateDaysRemaining_unparsed:
  "length (split_on CHR ''/'' s) \<noteq> 3 \<Longrightarrow> Date_parse h s = None \<Longrightarrow>
   calculateDaysRemaining h now (Some s) = 0"
  by (simp add: calculateDaysRemaining_def Let_def)

text \<open>
  Claim C6 fails on the code. In Brussels at noon on Friday 28 March 2025 a loan is
  due on Monday 31 March, three calendar days ahead. Summer time starts on the
  Sunday between, so local midnight of the 31st is 71 hours after local midnight of
  the 28th, and the floor of 71/24 is 2.
\<close>

theorem calculateDaysRemaining_summer_time:
  "calculateDaysRemaining brussels noon_28_march (Some ''31/03/2025'') = 2
   \<and> setHours0 brussels noon_28_march = 1743116400000
   \<and> Date_ymd brussels 2025 2 31 = Some 1743372000000
   \<and> MakeDay 2025 2 31 - MakeDay 2025 2 28 = 3"
  by code_simp

subsection \<open>Login\<close>

lemma login_verify_extends: "\<exists>rest. snd (login_verify nw tr) = tr @ rest"
  by (simp add: login_verify_def Let_def split: option.splits)

lemma login_callback_extends: "\<exists>rest. snd (login_callback nw tr form r) = tr @ rest"
proof -
  have v: "\<exists>rest. snd (login_verify nw (tr @ xs)) = tr @ rest" for xs
    using login_verify_extends[of nw "tr @ xs"] by auto
  show ?thesis
    using v[of "[]"] by (auto simp: login_callback_def Let_def v split: option.splits)
qed

lemma login_no_location:
  assumes "nw tr (GET ''https://bibliotheek.be/mijn-bibliotheek/aanmelden'' Manual) = Some r1"
    and "rs_status r1 = 302" and "\<not> truthy (rs_location r1)"
  shows "login h nw tr username password =
              (Inl NoOAuthLocation, tr @ [GET ''https://bibliotheek.be/mijn-bibliotheek/aanmelden'' Manual])"
  using assms by (simp add: login_def Let_def)

lemma login_submits:
  assumes "nw tr (GET ''https://bibliotheek.be/mijn-bibliotheek/aanmelden'' Manual) = Some r1"
    and "rs_status r1 = 302" and "rs_location r1 = Some loc" and "loc \<noteq> []"
    and "URL_new h loc = Some oauthUrl"
    and "nw (tr @ [GET ''https://bibliotheek.be/mijn-bibliotheek/aanmelden'' Manual]) (GET loc Follow) = Some r2"
  shows "\<exists>rest. snd (login h nw tr username password) =
     tr @ [GET ''https://bibliotheek.be/mijn-bibliotheek/aanmelden'' Manual, GET loc Follow,
        POST ''https://mijn.bibliotheek.be/openbibid/rest/auth/login'' (loginData oauthUrl username password) Manual] @ rest"
proof -
  let ?t3 = "tr @ [GET ''https://bibliotheek.be/mijn-bibliotheek/aanmelden'' Manual, GET loc Follow,
        POST ''https://mijn.bibliotheek.be/openbibid/rest/auth/login'' (loginData oauthUrl username password) Manual]"
  have cb: "\<exists>rest. snd (login_callback nw ?t3 form r) = ?t3 @ rest" for form r
    by (rule login_callback_extends)
  have t: "truthy (Some loc)" "str_or (Some loc) [] = loc"
    using assms(4) by (simp_all add: truthy_def str_or_def)
  show ?thesis
    using cb[of "loginData oauthUrl username password"]
    by (simp add: login_def Let_def assms t split: option.splits)
qed

text \<open>
  Against claim C7: the start page redirects to an address without any query
  parameter. Login goes on, posts the credentials with the hint \<^verbatim>\<open>login\<close> and an empty
  token, and succeeds.
\<close>

theorem login_without_parameters_counterexample:
  "login brussels (redirecting_net (Some ''https://mijn.bibliotheek.be/openbibid/rest/auth/authorize''))
     [] ''an@example.org'' ''secret'' =
   (Inr True,
    [GET ''https://bibliotheek.be/mijn-bibliotheek/aanmelden'' Manual,
     GET ''https://mijn.bibliotheek.be/openbibid/rest/auth/authorize'' Follow,
     POST ''https://mijn.bibliotheek.be/openbibid/rest/auth/login''
       [(''hint'', ''login''), (''token'', []),
        (''callback'', ''https://bibliotheek.be/my-library/login/callback''),
        (''email'', ''an@example.org''), (''password'', ''secret'')] Manual,
     GET ''https://bibliotheek.be/mijn-bibliotheek/lidmaatschappen'' Manual])"
  by code_simp

text \<open>
  Claim C7, amended. When the start request is answered with a redirect (302): with
  no \<^verbatim>\<open>Location\<close> header, or an empty one, login throws \<^verbatim>\<open>No OAuth location in response\<close>
  and has requested nothing else; with a \<^verbatim>\<open>Location\<close> that \<^verbatim>\<open>new URL\<close> accepts, and once
  the authorization page is fetched, login posts the credentials whichever
  parameters are missing: the hint \<^verbatim>\<open>login\<close> for a missing or empty hint, the empty
  token for a missing token, and always the fixed callback address.
\<close>

theorem login_redirected:
  assumes "nw tr (GET ''https://bibliotheek.be/mijn-bibliotheek/aanmelden'' Manual) = Some r1"
    and "rs_status r1 = 302"
  shows "(\<not> truthy (rs_location r1) \<longrightarrow>
            login h nw tr username password =
              (Inl NoOAuthLocation, tr @ [GET ''https://bibliotheek.be/mijn-bibliotheek/aanmelden'' Manual]))
       \<and> (\<forall>loc oauthUrl r2.
             rs_location r1 = Some loc \<and> loc \<noteq> [] \<and> URL_new h loc = Some oauthUrl
             \<and> nw (tr @ [GET ''https://bibliotheek.be/mijn-bibliotheek/aanmelden'' Manual]) (GET loc Follow) = Some r2
             \<longrightarrow> take 3 (drop (length tr) (snd (login h nw tr username password))) =
                   [GET ''https://bibliotheek.be/mijn-bibliotheek/aanmelden'' Manual,
                    GET loc Follow,
                    POST ''https://mijn.bibliotheek.be/openbibid/rest/auth/login''
                      [(''hint'', str_or (map_of (url_searchParams oauthUrl) ''hint'') ''login''),
                       (''token'', str_or (map_of (url_searchParams oauthUrl) ''oauth_token'') []),
                       (''callback'', ''https://bibliotheek.be/my-library/login/callback''),
                       (''email'', username), (''password'', password)] Manual])"
proof (intro conjI impI allI)
  assume "\<not> truthy (rs_location r1)"
  with assms show "login h nw tr username password =
      (Inl NoOAuthLocation, tr @ [GET ''https://bibliotheek.be/mijn-bibliotheek/aanmelden'' Manual])"
    by (rule login_no_location)
next
  fix loc oauthUrl r2
  assume a: "rs_location r1 = Some loc \<and> loc \<noteq> [] \<and> URL_new h loc = Some oauthUrl
     \<and> nw (tr @ [GET ''https://bibliotheek.be/mijn-bibliotheek/aanmelden'' Manual]) (GET loc Follow) = Some r2"
  from login_submits[of nw tr r1 loc h oauthUrl r2 username password] assms a
  obtain rest where "snd (login h nw tr username password) =
     tr @ [GET ''https://bibliotheek.be/mijn-bibliotheek/aanmelden'' Manual, GET loc Follow,
        POST ''https://mijn.bibliotheek.be/openbibid/rest/auth/login'' (loginData oauthUrl username password) Manual] @ rest"
    by blast
  then show "take 3 (drop (length tr) (snd (login h nw tr username password))) =
                   [GET ''https://bibliotheek.be/mijn-bibliotheek/aanmelden'' Manual,
                    GET loc Follow,
                    POST ''https://mijn.bibliotheek.be/openbibid/rest/auth/login''
                      [(''hint'', str_or (map_of (url_searchParams oauthUrl) ''hint'') ''login''),
                       (''token'', str_or (map_of (url_searchParams oauthUrl) ''oauth_token'') []),
                       (''callback'', ''https://bibliotheek.be/my-library/login/callback''),
                       (''email'', username), (''password'', password)] Manual]"
    by (simp add: loginData_def Let_def)
qed

theorem login_redirected_witness:
  "redirecting_net (Some ''https://mijn.bibliotheek.be/openbibid/rest/auth/authorize?hint=&oauth_callback=cb'') []
      (GET ''https://bibliotheek.be/mijn-bibliotheek/aanmelden'' Manual) =
     Some \<lparr>rs_status = 302,
           rs_location = Some ''https://mijn.bibliotheek.be/openbibid/rest/auth/authorize?hint=&oauth_callback=cb'',
           rs_body = []\<rparr>
   \<and> take 3 (drop (length ([] :: request list))
        (snd (login brussels
               (redirecting_net (Some ''https://mijn.bibliotheek.be/openbibid/rest/auth/authorize?hint=&oauth_callback=cb''))
               [] ''an@example.org'' ''secret''))) =
       [GET ''https://bibliotheek.be/mijn-bibliotheek/aanmelden'' Manual,
        GET ''https://mijn.bibliotheek.be/openbibid/rest/auth/authorize?hint=&oauth_callback=cb'' Follow,
        POST ''https://mijn.bibliotheek.be/openbibid/rest/auth/login''
          [(''hint'', ''login''), (''token'', []),
           (''callback'', ''https://bibliotheek.be/my-library/login/callback''),
           (''email'', ''an@example.org''), (''password'', ''secret'')] Manual]
   \<and> login brussels (redirecting_net None) [] ''an@example.org'' ''secret'' =
       (Inl NoOAuthLocation, [GET ''https://bibliotheek.be/mijn-bibliotheek/aanmelden'' Manual])"
proof -
  let ?loc = "''https://mijn.bibliotheek.be/openbibid/rest/auth/authorize?hint=&oauth_callback=cb''"
  let ?start = "GET ''https://bibliotheek.be/mijn-bibliotheek/aanmelden'' Manual"
  let ?r1 = "\<lparr>rs_status = 302, rs_location = Some ?loc, rs_body = []\<rparr>"
  let ?r0 = "\<lparr>rs_status = 302, rs_location = None, rs_body = []\<rparr>"
  have s1: "redirecting_net (Some ?loc) [] ?start = Some ?r1"
    by (simp add: redirecting_net_def GET_def)
  have s0: "redirecting_net None [] ?start = Some ?r0"
    by (simp add: redirecting_net_def GET_def)
  have u: "URL_new brussels ?loc =
      Some \<lparr>url_hostname = ''mijn.bibliotheek.be'',
            url_searchParams = [(''hint'', []), (''oauth_callback'', ''cb'')]\<rparr>"
    by code_simp
  have r2: "redirecting_net (Some ?loc) ([] @ [?start]) (GET ?loc Follow) =
      Some \<lparr>rs_status = 200, rs_location = None, rs_body = []\<rparr>"
    by (simp add: redirecting_net_def GET_def)
  have a: "take 3 (drop (length ([] :: request list))
        (snd (login brussels (redirecting_net (Some ?loc)) [] ''an@example.org'' ''secret''))) =
       [?start, GET ?loc Follow,
        POST ''https://mijn.bibliotheek.be/openbibid/rest/auth/login''
          [(''hint'', ''login''), (''token'', []),
           (''callback'', ''https://bibliotheek.be/my-library/login/callback''),
           (''email'', ''an@example.org''), (''password'', ''secret'')] Manual]"
    using login_redirected[of "redirecting_net (Some ?loc)" "[]" ?r1 brussels
        "''an@example.org''" "''secret''"] s1 u r2
    by (simp add: str_or_def)
  have b: "login brussels (redirecting_net None) [] ''an@example.org'' ''secret'' =
       (Inl NoOAuthLocation, [?start])"
    using login_redirected[of "redirecting_net None" "[]" ?r0 brussels
        "''an@example.org''" "''secret''"] s0
    by (simp add: truthy_def)
  from s1 a b show ?thesis by simp
qed


subsection \<open>Extending loans\<close>

lemma push_eligible_foldl:
  "foldl (push_eligible maxDays) acc details =
     acc @ map ld_extendLoanId (filter (eligible maxDays) (map snd details))"
  by (induction details arbitrary: acc) (simp_all add: push_eligible_def eligible_def Let_def)

lemma loansToExtend_eligible:
  "ud_loanDetails user = Some details \<Longrightarrow> loansToExtend maxDays details = eligible_ids maxDays user"
  by (simp add: loansToExtend_def push_eligible_foldl eligible_ids_def)

lemma is_GET_simps [simp]: "is_GET (GET u r)" "\<not> is_GET (POST u b r)"
  by (simp_all add: is_GET_def GET_def POST_def)

lemma extendLoans_gets:
  "ids \<noteq> [] \<Longrightarrow>
   filter is_GET (snd (extendLoans h nw tr b ids)) = filter is_GET tr @ [extend_request (b, ids)]"
  by (simp add: extendLoans_def extend_request_def Let_def split: option.splits)

lemma extendLoans_ok:
  assumes "\<And>tr rq. \<exists>r. nw tr rq = Some r \<and> rs_ok r"
  shows "\<exists>c. fst (extendLoans h nw tr b ids) = Inr c"
proof (cases "ids = []")
  case True
  then show ?thesis by (simp add: extendLoans_def)
next
  case False
  let ?u = "b @ ''/extend?loan-ids='' @ join ''%2C'' ids"
  from assms obtain r where r: "nw tr (GET ?u Manual) = Some r" "rs_ok r" by blast
  show ?thesis
  proof (cases "extend_form_inputs h (rs_body r)")
    case None
    with False r show ?thesis by (simp add: extendLoans_def Let_def)
  next
    case (Some inputs)
    from assms obtain r' where "nw (tr @ [GET ?u Manual]) (POST ?u (formData inputs) Follow) = Some r'"
      by blast
    with False r Some show ?thesis by (simp add: extendLoans_def Let_def)
  qed
qed

lemma batches_Cons:
  "batches maxDays (e # rest) =
     (if eligible_ids maxDays (snd e) \<noteq> [] \<and> baseUrl_of (snd e) \<noteq> []
      then (baseUrl_of (snd e), eligible_ids maxDays (snd e)) # batches maxDays rest
      else batches maxDays rest)"
  by (simp add: batches_def)

lemma eligible_ids_None: "ud_loanDetails u = None \<Longrightarrow> eligible_ids maxDays u = []"
  by (simp add: eligible_ids_def)

lemma extend_accounts_prefix:
  "\<exists>n. filter is_GET (snd (extend_accounts h nw maxDays users tot tr)) =
         filter is_GET tr @ take n (map extend_request (batches maxDays users))"
proof (induction users arbitrary: tot tr)
  case Nil
  show ?case by simp
next
  case (Cons e rest)
  show ?case
  proof (cases "ud_loanDetails (snd e)")
    case None
    with Cons.IH[of tot tr] show ?thesis
      by (simp add: batches_Cons eligible_ids_None)
  next
    case (Some details)
    note ids = loansToExtend_eligible[OF Some, of maxDays]
    show ?thesis
    proof (cases "eligible_ids maxDays (snd e) \<noteq> [] \<and> baseUrl_of (snd e) \<noteq> []")
      case False
      with Cons.IH[of tot tr] Some ids show ?thesis
        by (auto simp: batches_Cons)
    next
      case True
      let ?b = "(baseUrl_of (snd e), eligible_ids maxDays (snd e))"
      obtain res tr' where x: "extendLoans h nw tr (fst ?b) (snd ?b) = (res, tr')"
        by (cases "extendLoans h nw tr (fst ?b) (snd ?b)") auto
      from True have g: "filter is_GET tr' = filter is_GET tr @ [extend_request ?b]"
        using extendLoans_gets[of "snd ?b" h nw tr "fst ?b"] x by simp
      show ?thesis
      proof (cases res)
        case (Inl err)
        have "filter is_GET (snd (extend_accounts h nw maxDays (e # rest) tot tr)) =
            filter is_GET tr @ take 1 (map extend_request (batches maxDays (e # rest)))"
          using True Some ids x Inl g by (simp add: batches_Cons)
        then show ?thesis by blast
      next
        case (Inr count)
        from Cons.IH[of "tot + count" tr'] obtain n where
          "filter is_GET (snd (extend_accounts h nw maxDays rest (tot + count) tr')) =
             filter is_GET tr' @ take n (map extend_request (batches maxDays rest))" by blast
        then have "filter is_GET (snd (extend_accounts h nw maxDays (e # rest) tot tr)) =
            filter is_GET tr @ take (Suc n) (map extend_request (batches maxDays (e # rest)))"
          using True Some ids x Inr g by (simp add: batches_Cons)
        then show ?thesis by blast
      qed
    qed
  qed
qed

lemma extend_accounts_all:
  assumes ok: "\<And>tr rq. \<exists>r. nw tr rq = Some r \<and> rs_ok r"
  shows "filter is_GET (snd (extend_accounts h nw maxDays users tot tr)) =
         filter is_GET tr @ map extend_request (batches maxDays users)"
proof (induction users arbitrary: tot tr)
  case Nil
  show ?case by (simp add: batches_def)
next
  case (Cons e rest)
  show ?case
  proof (cases "ud_loanDetails (snd e)")
    case None
    with Cons.IH[of tot tr] show ?thesis
      by (simp add: batches_Cons eligible_ids_None)
  next
    case (Some details)
    note ids = loansToExtend_eligible[OF Some, of maxDays]
    show ?thesis
    proof (cases "eligible_ids maxDays (snd e) \<noteq> [] \<and> baseUrl_of (snd e) \<noteq> []")
      case False
      with Cons.IH[of tot tr] Some ids show ?thesis
        by (auto simp: batches_Cons)
    next
      case True
      let ?b = "(baseUrl_of (snd e), eligible_ids maxDays (snd e))"
      from extendLoans_ok[of nw h tr "fst ?b" "snd ?b", OF ok]
      obtain count tr' where x: "extendLoans h nw tr (fst ?b) (snd ?b) = (Inr count, tr')"
        by (cases "extendLoans h nw tr (fst ?b) (snd ?b)") auto
      from True have g: "filter is_GET tr' = filter is_GET tr @ [extend_request ?b]"
        using extendLoans_gets[of "snd ?b" h nw tr "fst ?b"] x by simp
      show ?thesis
        using True Some ids x g Cons.IH[of "tot + count" tr'] by (simp add: batches_Cons)
    qed
  qed
qed

lemma extendAllLoans_trace:
  "lastData dev = Some dat \<Longrightarrow> d_userDetails dat = Some users \<Longrightarrow>
   snd (extendAllLoans h nw now fetched dev maxDays) = snd (extend_accounts h nw maxDays users 0 [])"
  by (simp add: extendAllLoans_def Let_def split: prod.splits sum.splits)

lemma strip_loans_url: "strip_loans (loans_url i) = ''https://bibliotheek.be/my-library/memberships/'' @ i"
  by (simp add: strip_loans_def loans_url_def)

lemma extendLoans_requests:
  "ids \<noteq> [] \<Longrightarrow> snd (extendLoans h nw tr b ids) = tr @ batch_requests h nw tr (b, ids)"
  by (simp add: extendLoans_def batch_requests_def extend_request_def confirm_request_def
      rs_ok_def Let_def split: option.splits)

lemma extendLoans_fails:
  "ids \<noteq> [] \<Longrightarrow> (\<exists>err. fst (extendLoans h nw tr b ids) = Inl err) = batch_fails h nw tr (b, ids)"
  by (auto simp add: extendLoans_def batch_fails_def extend_request_def confirm_request_def
      rs_ok_def Let_def split: option.splits)

lemma extend_accounts_submit:
  "snd (extend_accounts h nw maxDays users tot tr) = snd (submit_batches h nw tr (batches maxDays users))
   \<and> (\<exists>err. fst (extend_accounts h nw maxDays users tot tr) = Inl err) =
       (\<not> fst (submit_batches h nw tr (batches maxDays users)))"
proof (induction users arbitrary: tot tr)
  case Nil
  show ?case by (simp add: batches_def)
next
  case (Cons e rest)
  show ?case
  proof (cases "ud_loanDetails (snd e)")
    case None
    with Cons.IH[of tot tr] show ?thesis
      by (simp add: batches_Cons eligible_ids_None)
  next
    case (Some details)
    note ids = loansToExtend_eligible[OF Some, of maxDays]
    show ?thesis
    proof (cases "eligible_ids maxDays (snd e) \<noteq> [] \<and> baseUrl_of (snd e) \<noteq> []")
      case False
      with Cons.IH[of tot tr] Some ids show ?thesis
        by (auto simp: batches_Cons)
    next
      case True
      let ?b = "(baseUrl_of (snd e), eligible_ids maxDays (snd e))"
      obtain res tr' where x: "extendLoans h nw tr (fst ?b) (snd ?b) = (res, tr')"
        by (cases "extendLoans h nw tr (fst ?b) (snd ?b)") auto
      from True have g: "tr' = tr @ batch_requests h nw tr ?b"
        using extendLoans_requests[of "snd ?b" h nw tr "fst ?b"] x by simp
      from True have f: "(\<exists>err. res = Inl err) = batch_fails h nw tr ?b"
        using extendLoans_fails[of "snd ?b" h nw tr "fst ?b"] x by simp
      show ?thesis
      proof (cases res)
        case (Inl err)
        with f have "batch_fails h nw tr ?b" by simp
        with True Some ids x Inl g show ?thesis by (simp add: batches_Cons)
      next
        case (Inr count)
        with f have "\<not> batch_fails h nw tr ?b" by simp
        with True Some ids x Inr g Cons.IH[of "tot + count" tr'] show ?thesis
          by (simp add: batches_Cons)
      qed
    qed
  qed
qed

lemma batch_requests_gets: "filter is_GET (batch_requests h nw tr b) = [extend_request b]"
  by (simp add: batch_requests_def extend_request_def confirm_request_def split: option.splits)

lemma submit_batches_all:
  "fst (submit_batches h nw tr bs) \<Longrightarrow>
   filter is_GET (snd (submit_batches h nw tr bs)) = filter is_GET tr @ map extend_request bs"
  by (induction bs arbitrary: tr) (simp_all add: batch_requests_gets split: if_splits)

lemma submit_batches_first_failure:
  "fst (submit_batches h nw tr pre) \<Longrightarrow> batch_fails h nw (snd (submit_batches h nw tr pre)) b \<Longrightarrow>
   submit_batches h nw tr (pre @ b # post) =
     (False, snd (submit_batches h nw tr pre) @ batch_requests h nw (snd (submit_batches h nw tr pre)) b)"
  by (induction pre arbitrary: tr) (simp_all split: if_splits)

lemma batches_stored:
  "stored_by_refresh users \<Longrightarrow>
   batches maxDays users =
     map (\<lambda>e. (''https://bibliotheek.be/my-library/memberships/'' @ fst e, eligible_ids maxDays (snd e)))
       (filter (\<lambda>e. eligible_ids maxDays (snd e) \<noteq> []) users)"
  by (induction users) (simp_all add: batches_def stored_by_refresh_def baseUrl_of_def strip_loans_url)

lemma extendAllLoans_failed:
  "lastData dev = Some dat \<Longrightarrow> d_userDetails dat = Some users \<Longrightarrow>
   fst (extend_accounts h nw maxDays users 0 []) = Inl err \<Longrightarrow>
   fst (extendAllLoans h nw now fetched dev maxDays) = (dev, [], False)"
  by (cases "extend_accounts h nw maxDays users 0 []") (simp add: extendAllLoans_def)

text \<open>
  Against claim C8. Two accounts as a refresh stores them, each with an eligible
  loan. The form of the first batch is answered with a redirect to the login,
  \<^verbatim>\<open>extendLoans\<close> throws, \<^verbatim>\<open>extendAllLoans\<close> returns \<^verbatim>\<open>false\<close>, and no request is made
  for the second account.
\<close>

theorem extension_counterexample:
  "stored_by_refresh [(''1'', account_An), (''2'', account_Bo)]
   \<and> eligible_ids 5 account_An = [''x1'']
   \<and> eligible_ids 5 account_Bo = [''y1'']
   \<and> extendAllLoans brussels expired_net noon_28_march (Inl FetchError)
            (device0\<lparr>lastData := Some data_two\<rparr>) 5 =
       ((device0\<lparr>lastData := Some data_two\<rparr>, [], False),
        [GET ''https://bibliotheek.be/my-library/memberships/1/extend?loan-ids=x1'' Manual])"
  by code_simp

text \<open>
  Claim C8, amended. For every stored snapshot with user details and every \<open>maxDays\<close>,
  the loans selected of an account are exactly those that are renewable, have a
  non-empty renewal identifier and have at most \<open>maxDays\<close> days remaining. The
  batches are, in the order of the accounts, those of the accounts that have at
  least one such loan and a non-empty base address (the address of the loans without
  its final \<^verbatim>\<open>/loans\<close>); in a snapshot as a refresh stores it every account has this
  address, so that these are the accounts with at least one eligible loan. The
  requests made are exactly those of the batches submitted one after the other up to
  and including the first batch whose request fails: the form of each batch and,
  when the form is returned, the posting of its fields. After a batch that fails no
  further request is made and \<^verbatim>\<open>extendAllLoans\<close> returns \<^verbatim>\<open>false\<close> with the device as it
  was; when no batch fails, the form of every batch is requested. No request is made
  for any other account.
\<close>

theorem extension_requests:
  assumes "lastData dev = Some dat" and "d_userDetails dat = Some users"
  shows "loansToExtend maxDays details =
           map ld_extendLoanId (filter (eligible maxDays) (map snd details))
       \<and> snd (extendAllLoans h nw now fetched dev maxDays) =
           snd (submit_batches h nw [] (batches maxDays users))
       \<and> (batches maxDays users = pre @ b # post
            \<and> fst (submit_batches h nw [] pre)
            \<and> batch_fails h nw (snd (submit_batches h nw [] pre)) b \<longrightarrow>
          snd (extendAllLoans h nw now fetched dev maxDays) =
            snd (submit_batches h nw [] pre) @ batch_requests h nw (snd (submit_batches h nw [] pre)) b
          \<and> filter is_GET (snd (extendAllLoans h nw now fetched dev maxDays)) =
              map extend_request (pre @ [b])
          \<and> fst (extendAllLoans h nw now fetched dev maxDays) = (dev, [], False))
       \<and> (fst (submit_batches h nw [] (batches maxDays users)) \<longrightarrow>
            filter is_GET (snd (extendAllLoans h nw now fetched dev maxDays)) =
              map extend_request (batches maxDays users))
       \<and> (stored_by_refresh users \<longrightarrow>
            batches maxDays users =
              map (\<lambda>e. (''https://bibliotheek.be/my-library/memberships/'' @ fst e,
                         eligible_ids maxDays (snd e)))
                (filter (\<lambda>e. eligible_ids maxDays (snd e) \<noteq> []) users))
       \<and> prefix (filter is_GET (snd (extendAllLoans h nw now fetched dev maxDays)))
           (map extend_request (batches maxDays users))
       \<and> ((\<forall>tr rq. \<exists>r. nw tr rq = Some r \<and> rs_ok r) \<longrightarrow>
            filter is_GET (snd (extendAllLoans h nw now fetched dev maxDays)) =
              map extend_request (batches maxDays users))"
proof -
  let ?bs = "batches maxDays users"
  let ?run = "extendAllLoans h nw now fetched dev maxDays"
  note tr = extendAllLoans_trace[OF assms, of h nw now fetched maxDays]
  note sub = extend_accounts_submit[of h nw maxDays users 0 "[]"]
  have sel: "loansToExtend maxDays details =
      map ld_extendLoanId (filter (eligible maxDays) (map snd details))"
    by (simp add: loansToExtend_def push_eligible_foldl)
  have eq: "snd ?run = snd (submit_batches h nw [] ?bs)"
    using tr sub by simp
  have stop: "snd ?run =
        snd (submit_batches h nw [] pre) @ batch_requests h nw (snd (submit_batches h nw [] pre)) b
      \<and> filter is_GET (snd ?run) = map extend_request (pre @ [b])
      \<and> fst ?run = (dev, [], False)"
    if bs: "?bs = pre @ b # post" and ok: "fst (submit_batches h nw [] pre)"
      and bad: "batch_fails h nw (snd (submit_batches h nw [] pre)) b"
  proof -
    from submit_batches_first_failure[OF ok bad, of post] bs
    have s: "submit_batches h nw [] ?bs =
        (False, snd (submit_batches h nw [] pre)
                 @ batch_requests h nw (snd (submit_batches h nw [] pre)) b)"
      by simp
    with eq have a: "snd ?run =
        snd (submit_batches h nw [] pre) @ batch_requests h nw (snd (submit_batches h nw [] pre)) b"
      by simp
    from submit_batches_all[OF ok] have "filter is_GET (snd (submit_batches h nw [] pre)) =
        map extend_request pre" by simp
    with a have g: "filter is_GET (snd ?run) = map extend_request (pre @ [b])"
      by (simp add: batch_requests_gets)
    from s sub obtain err where "fst (extend_accounts h nw maxDays users 0 []) = Inl err"
      by auto
    from extendAllLoans_failed[OF assms this] have "fst ?run = (dev, [], False)" .
    with a g show ?thesis by simp
  qed
  have all: "filter is_GET (snd ?run) = map extend_request ?bs"
    if "fst (submit_batches h nw [] ?bs)"
    using submit_batches_all[OF that] eq by simp
  have pre: "prefix (filter is_GET (snd ?run)) (map extend_request ?bs)"
  proof -
    from extend_accounts_prefix[of h nw maxDays users 0 "[]"] obtain n where
      "filter is_GET (snd (extend_accounts h nw maxDays users 0 [])) =
         take n (map extend_request ?bs)" by auto
    then show ?thesis by (simp add: tr take_is_prefix)
  qed
  have okall: "filter is_GET (snd ?run) = map extend_request ?bs"
    if "\<forall>tr rq. \<exists>r. nw tr rq = Some r \<and> rs_ok r"
  proof -
    from that have "\<And>tr rq. \<exists>r. nw tr rq = Some r \<and> rs_ok r" by blast
    from extend_accounts_all[of nw h maxDays users 0 "[]", OF this] show ?thesis
      by (simp add: tr)
  qed
  from sel eq stop all batches_stored[of users maxDays] pre okall show ?thesis
    by blast
qed

theorem extension_requests_witness:
  "lastData (device0\<lparr>lastData := Some data_four\<rparr>) = Some data_four
   \<and> d_userDetails data_four =
       Some [(''1'', account_An), (''2'', account_Bo), (''3'', account_Em), (''4'', account_Cy)]
   \<and> stored_by_refresh
       [(''1'', account_An), (''2'', account_Bo), (''3'', account_Em), (''4'', account_Cy)]
   \<and> batches 5 [(''1'', account_An), (''2'', account_Bo), (''3'', account_Em), (''4'', account_Cy)] =
       [(''https://bibliotheek.be/my-library/memberships/1'', [''x1''])]
       @ (''https://bibliotheek.be/my-library/memberships/2'', [''y1''])
       # [(''https://bibliotheek.be/my-library/memberships/4'', [''z1''])]
   \<and> fst (submit_batches brussels (dropping_net 2) []
         [(''https://bibliotheek.be/my-library/memberships/1'', [''x1''])])
   \<and> batch_fails brussels (dropping_net 2)
         (snd (submit_batches brussels (dropping_net 2) []
            [(''https://bibliotheek.be/my-library/memberships/1'', [''x1''])]))
         (''https://bibliotheek.be/my-library/memberships/2'', [''y1''])
   \<and> extendAllLoans brussels (dropping_net 2) noon_28_march (Inl FetchError)
        (device0\<lparr>lastData := Some data_four\<rparr>) 5 =
       ((device0\<lparr>lastData := Some data_four\<rparr>, [], False),
        [GET ''https://bibliotheek.be/my-library/memberships/1/extend?loan-ids=x1'' Manual,
         POST ''https://bibliotheek.be/my-library/memberships/1/extend?loan-ids=x1''
           [(''form_id'', ''extend'')] Follow,
         GET ''https://bibliotheek.be/my-library/memberships/2/extend?loan-ids=y1'' Manual])
   \<and> (\<forall>tr rq. \<exists>r. form_net tr rq = Some r \<and> rs_ok r)
   \<and> fst (submit_batches brussels form_net []
        (batches 5 [(''1'', account_An), (''2'', account_Bo), (''3'', account_Em), (''4'', account_Cy)]))
   \<and> snd (extendAllLoans brussels form_net noon_28_march (Inl FetchError)
        (device0\<lparr>lastData := Some data_four\<rparr>) 5) =
       [GET ''https://bibliotheek.be/my-library/memberships/1/extend?loan-ids=x1'' Manual,
        POST ''https://bibliotheek.be/my-library/memberships/1/extend?loan-ids=x1''
          [(''form_id'', ''extend'')] Follow,
        GET ''https://bibliotheek.be/my-library/memberships/2/extend?loan-ids=y1'' Manual,
        POST ''https://bibliotheek.be/my-library/memberships/2/extend?loan-ids=y1''
          [(''form_id'', ''extend'')] Follow,
        GET ''https://bibliotheek.be/my-library/memberships/4/extend?loan-ids=z1'' Manual,
        POST ''https://bibliotheek.be/my-library/memberships/4/extend?loan-ids=z1''
          [(''form_id'', ''extend'')] Follow]"
proof -
  let ?users = "[(''1'', account_An), (''2'', account_Bo), (''3'', account_Em), (''4'', account_Cy)]"
  let ?b1 = "(''https://bibliotheek.be/my-library/memberships/1'', [''x1''])"
  let ?b2 = "(''https://bibliotheek.be/my-library/memberships/2'', [''y1''])"
  let ?b4 = "(''https://bibliotheek.be/my-library/memberships/4'', [''z1''])"
  let ?dev = "device0\<lparr>lastData := Some data_four\<rparr>"
  have l: "lastData ?dev = Some data_four"
    by simp
  have u: "d_userDetails data_four = Some ?users"
    by (simp add: data_four_def)
  have st: "stored_by_refresh ?users"
    by code_simp
  have bs: "batches 5 ?users = [?b1] @ ?b2 # [?b4]"
    by code_simp
  have p: "submit_batches brussels (dropping_net 2) [] [?b1] =
      (True, [GET ''https://bibliotheek.be/my-library/memberships/1/extend?loan-ids=x1'' Manual,
              POST ''https://bibliotheek.be/my-library/memberships/1/extend?loan-ids=x1''
                [(''form_id'', ''extend'')] Follow])"
    by code_simp
  have f: "batch_fails brussels (dropping_net 2)
      (snd (submit_batches brussels (dropping_net 2) [] [?b1])) ?b2"
    by code_simp
  have r: "batch_requests brussels (dropping_net 2)
      [GET ''https://bibliotheek.be/my-library/memberships/1/extend?loan-ids=x1'' Manual,
       POST ''https://bibliotheek.be/my-library/memberships/1/extend?loan-ids=x1''
         [(''form_id'', ''extend'')] Follow] ?b2 =
      [GET ''https://bibliotheek.be/my-library/memberships/2/extend?loan-ids=y1'' Manual]"
    by code_simp
  have ok: "\<forall>tr rq. \<exists>r. form_net tr rq = Some r \<and> rs_ok r"
    by (simp add: form_net_def rs_ok_def)
  have a: "fst (submit_batches brussels form_net [] (batches 5 ?users))"
    by code_simp
  have s: "snd (submit_batches brussels form_net [] (batches 5 ?users)) =
       [GET ''https://bibliotheek.be/my-library/memberships/1/extend?loan-ids=x1'' Manual,
        POST ''https://bibliotheek.be/my-library/memberships/1/extend?loan-ids=x1''
          [(''form_id'', ''extend'')] Follow,
        GET ''https://bibliotheek.be/my-library/memberships/2/extend?loan-ids=y1'' Manual,
        POST ''https://bibliotheek.be/my-library/memberships/2/extend?loan-ids=y1''
          [(''form_id'', ''extend'')] Follow,
        GET ''https://bibliotheek.be/my-library/memberships/4/extend?loan-ids=z1'' Manual,
        POST ''https://bibliotheek.be/my-library/memberships/4/extend?loan-ids=z1''
          [(''form_id'', ''extend'')] Follow]"
    by code_simp
  have pf: "fst (submit_batches brussels (dropping_net 2) [] [?b1])"
    by (simp only: p fst_conv)
  note failing = extension_requests[OF l u, where h = brussels and nw = "dropping_net 2"
      and now = noon_28_march and fetched = "Inl FetchError" and maxDays = 5
      and pre = "[?b1]" and b = ?b2 and post = "[?b4]"]
  from failing[THEN conjunct2, THEN conjunct2, THEN conjunct1, THEN mp,
      OF conjI[OF bs conjI[OF pf f]]]
  have tr: "snd (extendAllLoans brussels (dropping_net 2) noon_28_march (Inl FetchError) ?dev 5) =
        snd (submit_batches brussels (dropping_net 2) [] [?b1])
        @ batch_requests brussels (dropping_net 2)
            (snd (submit_batches brussels (dropping_net 2) [] [?b1])) ?b2"
    and res: "fst (extendAllLoans brussels (dropping_net 2) noon_28_march (Inl FetchError) ?dev 5) =
        (?dev, [], False)"
    by blast+
  have stop: "extendAllLoans brussels (dropping_net 2) noon_28_march (Inl FetchError) ?dev 5 =
       ((?dev, [], False),
        [GET ''https://bibliotheek.be/my-library/memberships/1/extend?loan-ids=x1'' Manual,
         POST ''https://bibliotheek.be/my-library/memberships/1/extend?loan-ids=x1''
           [(''form_id'', ''extend'')] Follow,
         GET ''https://bibliotheek.be/my-library/memberships/2/extend?loan-ids=y1'' Manual])"
    by (simp only: prod_eq_iff fst_conv snd_conv tr res p r append_Cons append_Nil simp_thms)
  note working = extension_requests[OF l u, where h = brussels and nw = form_net
      and now = noon_28_march and fetched = "Inl FetchError" and maxDays = 5]
  from working[THEN conjunct2, THEN conjunct1]
  have all: "snd (extendAllLoans brussels form_net noon_28_march (Inl FetchError) ?dev 5) =
       [GET ''https://bibliotheek.be/my-library/memberships/1/extend?loan-ids=x1'' Manual,
        POST ''https://bibliotheek.be/my-library/memberships/1/extend?loan-ids=x1''
          [(''form_id'', ''extend'')] Follow,
        GET ''https://bibliotheek.be/my-library/memberships/2/extend?loan-ids=y1'' Manual,
        POST ''https://bibliotheek.be/my-library/memberships/2/extend?loan-ids=y1''
          [(''form_id'', ''extend'')] Follow,
        GET ''https://bibliotheek.be/my-library/memberships/4/extend?loan-ids=z1'' Manual,
        POST ''https://bibliotheek.be/my-library/memberships/4/extend?loan-ids=z1''
          [(''form_id'', ''extend'')] Follow]"
    by (simp only: s)
  from l u st bs pf f stop ok a all show ?thesis
    by (intro conjI)
qed


subsection \<open>Refreshes in flight\<close>

lemma reachable_init: "reachable h now dev (dev, [])"
  by (simp add: reachable_def)

lemma reachable_step:
  "reachable h now dev0 s \<Longrightarrow> refresh_step h now s s' \<Longrightarrow> reachable h now dev0 s'"
  unfolding reachable_def by (rule rtranclp.rtrancl_into_rtrancl)

lemma reachable_call: "reachable h now dev0 (dev, ts) \<Longrightarrow> reachable h now dev0 (dev, ts @ [AwaitFetch])"
  by (erule reachable_step) (rule refresh_step.call)

lemma refreshData_is_run: "reachable h now dev (fst (refreshData h now fetched dev), [])"
proof (cases fetched)
  case (Inl err)
  have 1: "reachable h now dev (dev, [AwaitFetch])"
    using reachable_call[OF reachable_init] by simp
  have "refresh_step h now (dev, [AwaitFetch]) (dev, [AwaitFetch][0 := AwaitUnavailable err])"
    by (rule refresh_step.thrown) simp_all
  with 1 have 2: "reachable h now dev (dev, [AwaitUnavailable err])"
    by (auto dest: reachable_step)
  have "refresh_step h now (dev, [AwaitUnavailable err])
      (dev\<lparr>unavailable := Some err\<rparr>, finish 0 [AwaitUnavailable err])"
    by (rule refresh_step.returned_false) simp_all
  with 2 have "reachable h now dev (dev\<lparr>unavailable := Some err\<rparr>, [])"
    by (auto dest: reachable_step simp: finish_def)
  with Inl show ?thesis by (simp add: refreshData_def)
next
  case (Inr dat)
  have 1: "reachable h now dev (dev, [AwaitFetch])"
    using reachable_call[OF reachable_init] by simp
  have "refresh_step h now (dev, [AwaitFetch]) (dev, [AwaitFetch][0 := AwaitStore dat])"
    by (rule refresh_step.fetched) simp_all
  with 1 have 2: "reachable h now dev (dev, [AwaitStore dat])"
    by (auto dest: reachable_step)
  have "refresh_step h now (dev, [AwaitStore dat])
      (dev\<lparr>lastData := Some dat\<rparr>, [AwaitStore dat][0 := AwaitProcess dat])"
    by (rule refresh_step.stored) simp_all
  with 2 have 3: "reachable h now dev (dev\<lparr>lastData := Some dat\<rparr>, [AwaitProcess dat])"
    by (auto dest: reachable_step)
  have "refresh_step h now (dev\<lparr>lastData := Some dat\<rparr>, [AwaitProcess dat])
      (fst (processData h now (dev\<lparr>lastData := Some dat\<rparr>) dat True), [AwaitProcess dat][0 := AwaitAvailable])"
    by (rule refresh_step.processed) simp_all
  with 3 have 4: "reachable h now dev
      (fst (processData h now (dev\<lparr>lastData := Some dat\<rparr>) dat True), [AwaitAvailable])"
    by (auto dest: reachable_step)
  have "refresh_step h now (fst (processData h now (dev\<lparr>lastData := Some dat\<rparr>) dat True), [AwaitAvailable])
      ((fst (processData h now (dev\<lparr>lastData := Some dat\<rparr>) dat True))\<lparr>unavailable := None\<rparr>,
       finish 0 [AwaitAvailable])"
    by (rule refresh_step.returned_true) simp_all
  with 4 have "reachable h now dev
      ((fst (processData h now (dev\<lparr>lastData := Some dat\<rparr>) dat True))\<lparr>unavailable := None\<rparr>, [])"
    by (auto dest: reachable_step simp: finish_def)
  with Inr show ?thesis by (simp add: refreshData_def case_prod_beta Let_def)
qed

text \<open>
  Against claim C9: two calls of \<^verbatim>\<open>refreshData\<close> are in flight together, both in
  \<^verbatim>\<open>api.refreshAllData\<close> (which starts with the login), and later both with their
  write of \<^verbatim>\<open>lastData\<close> pending.
\<close>

theorem two_refreshes_counterexample:
  "reachable brussels noon_28_march device0 (device0, [AwaitFetch, AwaitFetch])
   \<and> reachable brussels noon_28_march device0
        (device0, [AwaitStore no_loans, AwaitStore (data_due ''30/03/2025'')])"
proof -
  let ?R = "reachable brussels noon_28_march device0"
  have "?R (device0, [] @ [AwaitFetch])"
    by (rule reachable_call) (rule reachable_init)
  then have "?R (device0, [AwaitFetch] @ [AwaitFetch])"
    by (intro reachable_call) simp
  then have a: "?R (device0, [AwaitFetch, AwaitFetch])" by simp
  have "refresh_step brussels noon_28_march (device0, [AwaitFetch, AwaitFetch])
      (device0, [AwaitFetch, AwaitFetch][0 := AwaitStore no_loans])"
    by (rule refresh_step.fetched) simp_all
  with a have b: "?R (device0, [AwaitStore no_loans, AwaitFetch])"
    by (auto dest: reachable_step)
  have "refresh_step brussels noon_28_march (device0, [AwaitStore no_loans, AwaitFetch])
      (device0, [AwaitStore no_loans, AwaitFetch][1 := AwaitStore (data_due ''30/03/2025'')])"
    by (rule refresh_step.fetched) simp_all
  with b have "?R (device0, [AwaitStore no_loans, AwaitStore (data_due ''30/03/2025'')])"
    by (auto dest: reachable_step)
  with a show ?thesis by simp
qed

text \<open>
  Claim C9, amended. Nothing bounds the refresh cycles in flight: a call of
  \<^verbatim>\<open>refreshData\<close> that arrives while others are running starts a further cycle at
  once, so for every \<open>n\<close> a state with \<open>n\<close> cycles fetching together is reached.
  One call run on its own, from start to end with nothing between, is the function
  \<open>refreshData\<close>.
\<close>

theorem refresh_unbounded:
  "reachable h now dev (dev, replicate n AwaitFetch)
   \<and> reachable h now dev (fst (refreshData h now fetched dev), [])"
proof
  show "reachable h now dev (dev, replicate n AwaitFetch)"
  proof (induction n)
    case 0
    show ?case by (simp add: reachable_init)
  next
    case (Suc n)
    from reachable_call[OF Suc] show ?case
      by (simp add: replicate_append_same)
  qed
  show "reachable h now dev (fst (refreshData h now fetched dev), [])"
    by (rule refreshData_is_run)
qed

theorem refresh_unbounded_witness:
  "reachable brussels noon_28_march device0 (device0, [AwaitFetch, AwaitFetch, AwaitFetch])
   \<and> reachable brussels noon_28_march device0 (device0\<lparr>unavailable := Some FetchError\<rparr>, [])"
  using refresh_unbounded[of brussels noon_28_march device0 3 "Inl FetchError"]
  by (simp add: numeral_3_eq_3 refreshData_def)


subsection \<open>A refresh that fails\<close>

text \<open>
  Claim C10. When \<^verbatim>\<open>api.refreshAllData\<close> throws, be it in the login or in a fetch
  after it, \<^verbatim>\<open>refreshData\<close> returns \<^verbatim>\<open>false\<close>, triggers nothing, marks the device
  unavailable, and leaves the stored \<^verbatim>\<open>lastData\<close>, the previous loans and the previous
  minimum as they were. The store is written only when the fetch has returned its
  data, and the call then returns \<^verbatim>\<open>true\<close>.
\<close>

theorem refresh_failure_keeps_state:
  "refreshData h now (Inl err) dev = (dev\<lparr>unavailable := Some err\<rparr>, [], False)
   \<and> lastData (fst (refreshData h now (Inl err) dev)) = lastData dev
   \<and> previousLoans (fst (refreshData h now (Inl err) dev)) = previousLoans dev
   \<and> previousDaysRemaining (fst (refreshData h now (Inl err) dev)) = previousDaysRemaining dev
   \<and> snd (snd (refreshData h now (Inl err) dev)) = False
   \<and> (fst (login h nw [] username password) = Inl err \<longrightarrow>
        refreshData h now (refreshAllData h nw rest username password) dev =
          (dev\<lparr>unavailable := Some err\<rparr>, [], False))
   \<and> (fst (login h nw [] username password) = Inr ok
        \<and> rest (snd (login h nw [] username password)) = Inl err \<longrightarrow>
        refreshData h now (refreshAllData h nw rest username password) dev =
          (dev\<lparr>unavailable := Some err\<rparr>, [], False))
   \<and> lastData (fst (refreshData h now (Inr dat) dev)) = Some dat
   \<and> snd (snd (refreshData h now (Inr dat) dev)) = True"
  by (auto simp: refreshData_def refreshAllData_def processData_def case_prod_beta Let_def
      split: sum.splits)

theorem refresh_failure_keeps_state_witness:
  "fst (login brussels (redirecting_net None) [] ''an@example.org'' ''secret'') = Inl NoOAuthLocation
   \<and> refreshData brussels noon_28_march
        (refreshAllData brussels (redirecting_net None) (\<lambda>tr. Inr no_loans) ''an@example.org'' ''secret'')
        (device0\<lparr>lastData := Some no_loans\<rparr>) =
       (device0\<lparr>lastData := Some no_loans, unavailable := Some NoOAuthLocation\<rparr>, [], False)
   \<and> refreshData brussels noon_28_march (Inl (FetchFailed ''memberships'' 503))
        (device0\<lparr>lastData := Some no_loans\<rparr>) =
       (device0\<lparr>lastData := Some no_loans, unavailable := Some (FetchFailed ''memberships'' 503)\<rparr>,
        [], False)"
proof -
  have l: "fst (login brussels (redirecting_net None) [] ''an@example.org'' ''secret'') =
      Inl NoOAuthLocation"
    by code_simp
  from refresh_failure_keeps_state[of brussels noon_28_march NoOAuthLocation
      "device0\<lparr>lastData := Some no_loans\<rparr>" "redirecting_net None" "''an@example.org''" "''secret''"
      "\<lambda>tr. Inr no_loans"] l
  have a: "refreshData brussels noon_28_march
        (refreshAllData brussels (redirecting_net None) (\<lambda>tr. Inr no_loans) ''an@example.org'' ''secret'')
        (device0\<lparr>lastData := Some no_loans\<rparr>) =
       (device0\<lparr>lastData := Some no_loans, unavailable := Some NoOAuthLocation\<rparr>, [], False)"
    by simp
  from refresh_failure_keeps_state[of brussels noon_28_march "FetchFailed ''memberships'' 503"
      "device0\<lparr>lastData := Some no_loans\<rparr>"]
  have b: "refreshData brussels noon_28_march (Inl (FetchFailed ''memberships'' 503))
        (device0\<lparr>lastData := Some no_loans\<rparr>) =
       (device0\<lparr>lastData := Some no_loans, unavailable := Some (FetchFailed ''memberships'' 503)\<rparr>,
        [], False)"
    by simp
  from l a b show ?thesis by simp
qed


end
